theory Spec2Isabelle
  imports Complex_Main "HOL-Library.Product_Lexorder"
begin

section \<open>Data model\<close>

text \<open>
  The handlers of the pharmacy application read and write rows of a relational
  database through an object-relational mapper.  A table is a list of rows; a row is
  a record holding the columns that the handlers below read or write (columns that
  are only passed through to the caller are left out).  Identifiers are strings,
  integer columns are unbounded integers, money amounts are exact rationals
  (rounding of floating-point arithmetic is not part of the model), and a timestamp
  is a number of milliseconds.
\<close>

type_synonym ident = string
type_synonym time = int
type_synonym amount = rat

datatype rx_status = Pending | PartiallyDispensed | Dispensed

datatype priority = Emergency | Urgent | Normal

record product =
  prod_id :: ident
  prod_name :: string
  prod_quantity :: int
  prod_reorderLevel :: "int option"
  prod_expiryDate :: "time option"
  prod_isDeleted :: bool
  prod_updatedAt :: time

section \<open>Stock levels: classification and summary\<close>

text \<open>
  The stock-levels endpoint classifies every product that it lists and adds a summary
  over all live products.  The functions below are the body of the mapping over the
  listed products and the computation of the summary; the selection and the pagination
  of the list are not modelled.
\<close>

datatype stock_status = OutOfStock | LowStock | Healthy

text \<open>
  \<open>product.reorderLevel || 10\<close>: the operator \<open>||\<close> yields its right operand
  when the left one is falsy, which for a nullable number is the case when it is absent
  and when it is \<open>0\<close>.
\<close>

definition reorderThreshold :: "product \<Rightarrow> int" where
  "reorderThreshold p =
     (case prod_reorderLevel p of
        None \<Rightarrow> 10
      | Some r \<Rightarrow> if r = 0 then 10 else r)"

definition stockPercentage :: "product \<Rightarrow> rat" where
  "stockPercentage p =
     min (of_int (prod_quantity p) / of_int (reorderThreshold p) * 100) 100"

definition stockStatus :: "product \<Rightarrow> stock_status" where
  "stockStatus p =
     (if prod_quantity p = 0 then OutOfStock
      else if prod_quantity p \<le> reorderThreshold p then LowStock
      else Healthy)"

definition isExpiringSoon :: "time \<Rightarrow> product \<Rightarrow> bool" where
  "isExpiringSoon now p =
     (case prod_expiryDate p of
        None \<Rightarrow> False
      | Some e \<Rightarrow> e - now < 30 * 24 * 60 * 60 * 1000)"

text \<open>
  The classification as the specification words it: the threshold is the reorder
  level, and \<open>10\<close> only when the reorder level is absent.
\<close>

definition spec_threshold :: "int option \<Rightarrow> int" where
  "spec_threshold r = (case r of None \<Rightarrow> 10 | Some l \<Rightarrow> l)"

definition spec_stockStatus :: "int \<Rightarrow> int option \<Rightarrow> stock_status" where
  "spec_stockStatus q r =
     (if q = 0 then OutOfStock
      else if 0 < q \<and> q \<le> spec_threshold r then LowStock
      else Healthy)"

text \<open>The summary block of the stock-levels response.\<close>

record stock_summary =
  totalDrugs :: int
  inStock :: int
  lowStock :: int
  outOfStock :: int

definition count_rows :: "('a \<Rightarrow> bool) \<Rightarrow> 'a list \<Rightarrow> int" where
  "count_rows P rows = int (length (filter P rows))"

definition outOfStockCount :: "product list \<Rightarrow> int" where
  "outOfStockCount ps = count_rows (\<lambda>p. prod_quantity p = 0 \<and> \<not> prod_isDeleted p) ps"

definition allProducts :: "product list \<Rightarrow> product list" where
  "allProducts ps = filter (\<lambda>p. \<not> prod_isDeleted p \<and> 0 < prod_quantity p) ps"

definition lowStockCount :: "product list \<Rightarrow> int" where
  "lowStockCount ps =
     int (length (filter
       (\<lambda>p. case prod_reorderLevel p of
               None \<Rightarrow> prod_quantity p \<le> 10
             | Some r \<Rightarrow> if r = 0 then prod_quantity p \<le> 10 else prod_quantity p \<le> r)
       (allProducts ps)))"

definition stock_summary_of :: "product list \<Rightarrow> stock_summary" where
  "stock_summary_of ps =
     (let total = count_rows (\<lambda>p. \<not> prod_isDeleted p) ps in
      \<lparr> totalDrugs = total,
        inStock = total - outOfStockCount ps,
        lowStock = lowStockCount ps,
        outOfStock = outOfStockCount ps \<rparr>)"

text \<open>The low-stock count as the specification words it.\<close>

definition spec_lowStockCount :: "product list \<Rightarrow> int" where
  "spec_lowStockCount ps =
     count_rows (\<lambda>p. \<not> prod_isDeleted p \<and> 0 < prod_quantity p
                    \<and> prod_quantity p \<le> spec_threshold (prod_reorderLevel p)) ps"

definition mk_product :: "ident \<Rightarrow> string \<Rightarrow> int \<Rightarrow> int option \<Rightarrow> product" where
  "mk_product i n q r =
     \<lparr> prod_id = i, prod_name = n, prod_quantity = q, prod_reorderLevel = r,
       prod_expiryDate = None, prod_isDeleted = False, prod_updatedAt = 0 \<rparr>"

section \<open>Rows of the dispensing workflow\<close>

record student =
  stu_id :: ident
  stu_firstName :: string
  stu_lastName :: string
  stu_matricNumber :: string

record prescription_item =
  pi_id :: ident
  pi_prescriptionId :: ident
  pi_productId :: ident
  pi_quantityPrescribed :: int
  pi_quantityDispensed :: int
  pi_unitPrice :: amount
  pi_totalPrice :: amount
  pi_isDispensed :: bool
  pi_dispensedAt :: "time option"
  pi_dispensedBy :: "ident option"

record prescription =
  rx_id :: ident
  rx_prescriptionNo :: string
  rx_studentId :: ident
  rx_status :: rx_status
  rx_priority :: priority
  rx_totalCost :: amount
  rx_createdAt :: time
  rx_isDeleted :: bool
  rx_isDispensed :: bool
  rx_dispensedAt :: "time option"
  rx_dispensedBy :: "ident option"
  rx_amountPaid :: "amount option"

text \<open>One entry of the \<open>dispensedItems\<close> array of a dispensing request, and the request body.\<close>

record dispensed_item =
  itemId :: ident
  productId :: ident
  quantityDispensed :: int

record dispense_request =
  dispensedItems :: "dispensed_item list"
  totalAmount :: amount
  amountPaid :: amount
  paymentMethod :: string
  dispense_notes :: string
  dispensedBy :: ident

record drug_dispensal =
  dd_dispensalNo :: string
  dd_prescriptionId :: ident
  dd_prescriptionNo :: string
  dd_studentId :: ident
  dd_dispensedBy :: ident
  dd_dispensedItems :: "dispensed_item list"
  dd_totalAmount :: amount
  dd_notes :: string

record balance_transaction =
  bt_studentId :: ident
  bt_amount :: amount
  bt_type :: string
  bt_description :: string
  bt_paymentMethod :: string
  bt_prescriptionId :: ident
  bt_balanceAfter :: amount

record drug =
  drug_id :: ident
  drug_code :: string
  drug_name :: string
  drug_quantity :: int
  drug_reorderLevel :: int
  drug_price :: amount
  drug_cost :: amount
  drug_expiryDate :: time
  drug_unit :: string
  drug_prescriptionRequired :: bool
  drug_createdBy :: ident
  drug_isDeleted :: bool
  drug_createdAt :: time
  drug_updatedAt :: time

record db =
  products :: "product list"
  prescriptions :: "prescription list"
  prescriptionItems :: "prescription_item list"
  students :: "student list"
  drugDispensals :: "drug_dispensal list"
  balanceTransactions :: "balance_transaction list"
  drugs :: "drug list"

section \<open>Errors, responses and the primitives of the row mapper\<close>

text \<open>
  Every \<open>throw\<close> of the handlers is a constructor.  \<open>RecordNotFound\<close> is what the
  mapper raises when \<open>update\<close> is given a key that no row has, \<open>UniqueConstraint\<close> what
  \<open>create\<close> raises for a primary key that exists already, \<open>TypeError\<close> what the
  runtime raises when a field of a missing related row is read, and \<open>InvalidArgument\<close> what
  the mapper raises for a negative \<open>skip\<close>.
\<close>

datatype error =
    PrescriptionNotFound
  | NotPending
  | PrescriptionItemNotFound ident
  | InsufficientStock string int int
  | ProductNotFound
  | RecordNotFound
  | UniqueConstraint
  | TypeError
  | InvalidArgument
  | DrugCodeExists
  | DrugNotFound
  | FailedToCreateDrug
  | FailedToUpdateDrug
  | FailedToDeleteDrug
  | FailedToFetchPending

datatype 'a response = Success 'a | Failure nat error

definition digit_char :: "nat \<Rightarrow> char" where
  "digit_char n = ''0123456789'' ! n"

function show_nat :: "nat \<Rightarrow> string" where
  "show_nat n = (if n < 10 then [digit_char n] else show_nat (n div 10) @ [digit_char (n mod 10)])"
  by pat_completeness auto
termination
  by (relation "measure id") auto

definition show_int :: "int \<Rightarrow> string" where
  "show_int i = (if i < 0 then CHR ''-'' # show_nat (nat (- i)) else show_nat (nat i))"

text \<open>
  The text of the \<open>error\<close> field of a failure response.  For the errors that the handlers
  throw it is the text of the source; for the errors of the mapper and of the runtime it
  stands for their longer messages.
\<close>

fun message :: "error \<Rightarrow> string" where
  "message PrescriptionNotFound = ''Prescription not found''"
| "message NotPending = ''Prescription is not in pending status''"
| "message (PrescriptionItemNotFound i) = ''Prescription item not found: '' @ i"
| "message (InsufficientStock n a r) =
     ''Insufficient stock for '' @ n @ ''. Available: '' @ show_int a
       @ '', Required: '' @ show_int r"
| "message ProductNotFound = ''Product not found''"
| "message RecordNotFound = ''Record to update not found.''"
| "message UniqueConstraint = ''Unique constraint failed''"
| "message TypeError = ''Cannot read properties of null''"
| "message InvalidArgument = ''Invalid value provided''"
| "message DrugCodeExists = ''Drug code already exists''"
| "message DrugNotFound = ''Drug does not exist''"
| "message FailedToCreateDrug = ''Failed to create drug''"
| "message FailedToUpdateDrug = ''Failed to update drug''"
| "message FailedToDeleteDrug = ''Failed to delete drug''"
| "message FailedToFetchPending = ''Failed to fetch pending prescriptions''"

text \<open>
  \<open>update\<close> with a key: the rows with that key are rewritten; the call fails when there
  is none.  Keys are primary keys, so at most one row is concerned.
\<close>

definition update_rows :: "('a \<Rightarrow> bool) \<Rightarrow> ('a \<Rightarrow> 'a) \<Rightarrow> 'a list \<Rightarrow> 'a list option" where
  "update_rows P f rows =
     (if list_ex P rows then Some (map (\<lambda>r. if P r then f r else r) rows) else None)"

text \<open>
  A transaction runs its body on the database; when the body throws, the database stays
  as it was before the transaction, whatever the body had written.
\<close>

definition transaction :: "(db \<Rightarrow> (error + 'a) \<times> db) \<Rightarrow> db \<Rightarrow> (error + 'a) \<times> db" where
  "transaction body s =
     (case body s of
        (Inl e, _) \<Rightarrow> (Inl e, s)
      | (Inr r, s') \<Rightarrow> (Inr r, s'))"

section \<open>The dispensing transaction\<close>

record clock =
  clock_year :: nat
  clock_millis :: nat

definition slice_last :: "nat \<Rightarrow> 'a list \<Rightarrow> 'a list" where
  "slice_last n xs = drop (length xs - n) xs"

definition generateDispensalNo :: "clock \<Rightarrow> string" where
  "generateDispensalNo c =
     ''DISP-'' @ show_nat (clock_year c) @ ''-'' @ slice_last 6 (show_nat (clock_millis c))"

definition new_Date :: "clock \<Rightarrow> time" where
  "new_Date c = int (clock_millis c)"

definition find_prescription :: "db \<Rightarrow> ident \<Rightarrow> prescription option" where
  "find_prescription s pid =
     find (\<lambda>p. rx_id p = pid \<and> \<not> rx_isDeleted p) (prescriptions s)"

text \<open>The \<open>include\<close> clauses: the items of a prescription, each with its product, and the student.\<close>

definition include_items :: "db \<Rightarrow> ident \<Rightarrow> (prescription_item \<times> product option) list" where
  "include_items s pid =
     map (\<lambda>i. (i, find (\<lambda>p. prod_id p = pi_productId i) (products s)))
       (filter (\<lambda>i. pi_prescriptionId i = pid) (prescriptionItems s))"

definition include_student :: "db \<Rightarrow> prescription \<Rightarrow> student option" where
  "include_student s p = find (\<lambda>st. stu_id st = rx_studentId p) (students s)"

definition find_item ::
  "(prescription_item \<times> product option) list \<Rightarrow> dispensed_item
     \<Rightarrow> (prescription_item \<times> product option) option" where
  "find_item items d = find (\<lambda>x. pi_id (fst x) = itemId d) items"

text \<open>Step 2, the loop that verifies the stock of every requested item.\<close>

fun verify_stock ::
  "(prescription_item \<times> product option) list \<Rightarrow> dispensed_item list \<Rightarrow> error option" where
  "verify_stock items [] = None"
| "verify_stock items (d # ds) =
     (case find_item items d of
        None \<Rightarrow> Some (PrescriptionItemNotFound (itemId d))
      | Some (i, None) \<Rightarrow> Some TypeError
      | Some (i, Some p) \<Rightarrow>
          if prod_quantity p < quantityDispensed d
          then Some (InsufficientStock (prod_name p) (prod_quantity p) (quantityDispensed d))
          else verify_stock items ds)"

definition mark_dispensed :: "time \<Rightarrow> ident \<Rightarrow> dispensed_item \<Rightarrow> prescription_item \<Rightarrow> prescription_item" where
  "mark_dispensed now by d i =
     i\<lparr> pi_quantityDispensed := quantityDispensed d,
        pi_isDispensed := True,
        pi_dispensedAt := Some now,
        pi_dispensedBy := Some by \<rparr>"

definition decrement :: "dispensed_item \<Rightarrow> product \<Rightarrow> product" where
  "decrement d p = p\<lparr> prod_quantity := prod_quantity p - quantityDispensed d \<rparr>"

text \<open>Steps 4 and 5, the loop that updates the items and deducts from the inventory.\<close>

fun update_dispensed :: "time \<Rightarrow> ident \<Rightarrow> dispensed_item list \<Rightarrow> db \<Rightarrow> (error + unit) \<times> db" where
  "update_dispensed now by [] s = (Inr (), s)"
| "update_dispensed now by (d # ds) s =
     (case update_rows (\<lambda>i. pi_id i = itemId d) (mark_dispensed now by d) (prescriptionItems s) of
        None \<Rightarrow> (Inl RecordNotFound, s)
      | Some is' \<Rightarrow>
          (case update_rows (\<lambda>p. prod_id p = productId d) (decrement d) (products s) of
             None \<Rightarrow> (Inl RecordNotFound, s\<lparr> prescriptionItems := is' \<rparr>)
           | Some ps' \<Rightarrow>
               update_dispensed now by ds (s\<lparr> prescriptionItems := is', products := ps' \<rparr>)))"

definition new_dispensal :: "clock \<Rightarrow> prescription \<Rightarrow> dispense_request \<Rightarrow> drug_dispensal" where
  "new_dispensal c p body =
     \<lparr> dd_dispensalNo = generateDispensalNo c,
       dd_prescriptionId = rx_id p,
       dd_prescriptionNo = rx_prescriptionNo p,
       dd_studentId = rx_studentId p,
       dd_dispensedBy = dispensedBy body,
       dd_dispensedItems = dispensedItems body,
       dd_totalAmount = totalAmount body,
       dd_notes = dispense_notes body \<rparr>"

definition new_status :: "bool \<Rightarrow> rx_status" where
  "new_status allItemsDispensed = (if allItemsDispensed then Dispensed else PartiallyDispensed)"

definition set_dispensed :: "time \<Rightarrow> dispense_request \<Rightarrow> bool \<Rightarrow> prescription \<Rightarrow> prescription" where
  "set_dispensed now body allItemsDispensed p =
     p\<lparr> rx_status := new_status allItemsDispensed,
        rx_isDispensed := allItemsDispensed,
        rx_dispensedAt := (if allItemsDispensed then Some now else rx_dispensedAt p),
        rx_dispensedBy := (if allItemsDispensed then Some (dispensedBy body) else rx_dispensedBy p),
        rx_amountPaid := Some (amountPaid body) \<rparr>"

definition payment :: "prescription \<Rightarrow> dispense_request \<Rightarrow> balance_transaction" where
  "payment p body =
     \<lparr> bt_studentId = rx_studentId p,
       bt_amount = amountPaid body,
       bt_type = ''DEBIT'',
       bt_description = ''Payment for prescription '' @ rx_prescriptionNo p,
       bt_paymentMethod = paymentMethod body,
       bt_prescriptionId = rx_id p,
       bt_balanceAfter = 0 \<rparr>"

record tx_result =
  res_dispensal :: drug_dispensal
  res_prescription :: prescription
  res_student :: "student option"

text \<open>
  The body of the transaction.  The second component of the result is the database as the
  body has left it at the moment it returns or throws.
\<close>

definition dispense_tx :: "clock \<Rightarrow> ident \<Rightarrow> dispense_request \<Rightarrow> db \<Rightarrow> (error + tx_result) \<times> db" where
  "dispense_tx c pid body s =
     (case find_prescription s pid of
        None \<Rightarrow> (Inl PrescriptionNotFound, s)
      | Some p \<Rightarrow>
          if rx_status p \<noteq> Pending then (Inl NotPending, s)
          else
            (case verify_stock (include_items s pid) (dispensedItems body) of
               Some e \<Rightarrow> (Inl e, s)
             | None \<Rightarrow>
                 let dispensal = new_dispensal c p body;
                     s1 = s\<lparr> drugDispensals := drugDispensals s @ [dispensal] \<rparr>
                 in (case update_dispensed (new_Date c) (dispensedBy body) (dispensedItems body) s1 of
                       (Inl e, s2) \<Rightarrow> (Inl e, s2)
                     | (Inr _, s2) \<Rightarrow>
                         let allItemsDispensed =
                               (length (dispensedItems body) = length (include_items s pid))
                         in (case update_rows (\<lambda>q. rx_id q = rx_id p)
                                    (set_dispensed (new_Date c) body allItemsDispensed)
                                    (prescriptions s2) of
                               None \<Rightarrow> (Inl RecordNotFound, s2)
                             | Some rs \<Rightarrow>
                                 let s3 = s2\<lparr> prescriptions := rs \<rparr>;
                                     s4 = (if 0 < amountPaid body
                                           then s3\<lparr> balanceTransactions :=
                                                   balanceTransactions s3 @ [payment p body] \<rparr>
                                           else s3)
                                 in (Inr \<lparr> res_dispensal = dispensal,
                                          res_prescription = p\<lparr> rx_status := new_status allItemsDispensed \<rparr>,
                                          res_student = include_student s p \<rparr>, s4)))))"

text \<open>The \<open>data\<close> block of the success response of the dispensing endpoint.\<close>

record dispense_data =
  resp_dispensalNo :: string
  resp_prescriptionNo :: string
  resp_studentName :: string
  resp_totalAmount :: amount
  resp_amountPaid :: amount
  resp_change :: amount

definition dispense_POST ::
  "clock \<Rightarrow> ident \<Rightarrow> dispense_request \<Rightarrow> db \<Rightarrow> dispense_data response \<times> db" where
  "dispense_POST c pid body s =
     (case transaction (dispense_tx c pid body) s of
        (Inl e, s') \<Rightarrow> (Failure 500 e, s')
      | (Inr r, s') \<Rightarrow>
          (case res_student r of
             None \<Rightarrow> (Failure 500 TypeError, s')
           | Some st \<Rightarrow>
               (Success \<lparr> resp_dispensalNo = dd_dispensalNo (res_dispensal r),
                          resp_prescriptionNo = rx_prescriptionNo (res_prescription r),
                          resp_studentName = stu_firstName st @ '' '' @ stu_lastName st,
                          resp_totalAmount = totalAmount body,
                          resp_amountPaid = amountPaid body,
                          resp_change = amountPaid body - totalAmount body \<rparr>, s')))"

section \<open>Inventory adjustment\<close>

record adjustment =
  oldQuantity :: int
  newQuantity :: int
  difference :: int

definition stock_PATCH_tx :: "time \<Rightarrow> ident \<Rightarrow> int \<Rightarrow> db \<Rightarrow> (error + adjustment) \<times> db" where
  "stock_PATCH_tx now pid quantity s =
     (case find (\<lambda>p. prod_id p = pid) (products s) of
        None \<Rightarrow> (Inl ProductNotFound, s)
      | Some product \<Rightarrow>
          (case update_rows (\<lambda>p. prod_id p = pid)
                  (\<lambda>p. p\<lparr> prod_quantity := quantity, prod_updatedAt := now \<rparr>) (products s) of
             None \<Rightarrow> (Inl RecordNotFound, s)
           | Some ps \<Rightarrow>
               (Inr \<lparr> oldQuantity = prod_quantity product,
                      newQuantity = quantity,
                      difference = quantity - prod_quantity product \<rparr>,
                s\<lparr> products := ps \<rparr>)))"

definition stock_PATCH :: "time \<Rightarrow> ident \<Rightarrow> int \<Rightarrow> db \<Rightarrow> adjustment response \<times> db" where
  "stock_PATCH now pid quantity s =
     (case transaction (stock_PATCH_tx now pid quantity) s of
        (Inl e, s') \<Rightarrow> (Failure 500 e, s')
      | (Inr r, s') \<Rightarrow> (Success r, s'))"

section \<open>The list of pending prescriptions\<close>

text \<open>
  The \<open>where\<close> clause of the query.  The text filter is \<open>contains\<close> in insensitive mode,
  modelled on ASCII letters.  The parameters are the parsed query parameters: the priority
  is absent when the parameter is missing, empty or \<open>all\<close>; \<open>page\<close> and \<open>limit\<close> are the
  integers that were parsed.
\<close>

definition to_lower :: "char \<Rightarrow> char" where
  "to_lower c =
     (case find (\<lambda>ul. fst ul = c)
             (zip ''ABCDEFGHIJKLMNOPQRSTUVWXYZ'' ''abcdefghijklmnopqrstuvwxyz'') of
        None \<Rightarrow> c
      | Some ul \<Rightarrow> snd ul)"

fun starts_with :: "string \<Rightarrow> string \<Rightarrow> bool" where
  "starts_with [] t = True"
| "starts_with (a # q) [] = False"
| "starts_with (a # q) (b # t) = (a = b \<and> starts_with q t)"

fun contains_str :: "string \<Rightarrow> string \<Rightarrow> bool" where
  "contains_str q [] = (q = [])"
| "contains_str q (b # t) = (starts_with q (b # t) \<or> contains_str q t)"

definition contains_insensitive :: "string \<Rightarrow> string \<Rightarrow> bool" where
  "contains_insensitive q t = contains_str (map to_lower q) (map to_lower t)"

definition search_matches :: "db \<Rightarrow> string \<Rightarrow> prescription \<Rightarrow> bool" where
  "search_matches s q p =
     (contains_insensitive q (rx_prescriptionNo p)
      \<or> (case include_student s p of
            None \<Rightarrow> False
          | Some st \<Rightarrow>
              contains_insensitive q (stu_firstName st)
              \<or> contains_insensitive q (stu_lastName st)
              \<or> contains_insensitive q (stu_matricNumber st)))"

definition pending_where :: "db \<Rightarrow> priority option \<Rightarrow> string option \<Rightarrow> prescription \<Rightarrow> bool" where
  "pending_where s pr search p =
     (rx_status p = Pending \<and> \<not> rx_isDeleted p
      \<and> (case pr of None \<Rightarrow> True | Some x \<Rightarrow> rx_priority p = x)
      \<and> (case search of
            None \<Rightarrow> True
          | Some q \<Rightarrow> if q = [] then True else search_matches s q p))"

text \<open>
  Modelled from the spec: the declaration of the \<open>priority\<close> column is in the database
  schema, which is not among the sources, so the order in which the database sorts its
  values is taken from the specification and from the comment of the query (``emergency
  first, then urgent, then normal''): emergency < urgent < normal.
\<close>

definition priority_rank :: "priority \<Rightarrow> nat" where
  "priority_rank pr = (case pr of Emergency \<Rightarrow> 0 | Urgent \<Rightarrow> 1 | Normal \<Rightarrow> 2)"

text \<open>\<open>orderBy: [{priority: 'asc'}, {createdAt: 'asc'}]\<close>\<close>

definition order_pending :: "prescription list \<Rightarrow> prescription list" where
  "order_pending rows = sort_key (\<lambda>p. (priority_rank (rx_priority p), rx_createdAt p)) rows"

text \<open>
  \<open>skip\<close> and \<open>take\<close>: a negative \<open>skip\<close> is rejected; a negative \<open>take\<close> selects from
  the end of the ordered rows.
\<close>

definition skip_take :: "int \<Rightarrow> int \<Rightarrow> 'a list \<Rightarrow> error + 'a list" where
  "skip_take offset limit rows =
     (if offset < 0 then Inl InvalidArgument
      else if 0 \<le> limit then Inr (take (nat limit) (drop (nat offset) rows))
      else Inr (rev (take (nat (- limit)) (drop (nat offset) (rev rows)))))"

record formatted_item =
  fi_id :: ident
  fi_drugName :: string
  fi_quantity :: int
  fi_available :: int
  fi_hasStock :: bool
  fi_unitPrice :: amount
  fi_totalPrice :: amount

record formatted_prescription =
  fp_id :: ident
  fp_prescriptionNo :: string
  fp_studentName :: string
  fp_priority :: priority
  fp_itemCount :: nat
  fp_totalCost :: amount
  fp_createdAt :: time
  fp_items :: "formatted_item list"
  fp_hasStockIssues :: bool

record pending_response =
  pr_prescriptions :: "formatted_prescription list"
  pr_total :: int
  pr_emergency :: int
  pr_urgent :: int
  pr_normal :: int

text \<open>\<open>xs.map(f)\<close> for an \<open>f\<close> that may throw.\<close>

fun map_result :: "('a \<Rightarrow> error + 'b) \<Rightarrow> 'a list \<Rightarrow> error + 'b list" where
  "map_result f [] = Inr []"
| "map_result f (x # xs) =
     (case f x of
        Inl e \<Rightarrow> Inl e
      | Inr y \<Rightarrow> (case map_result f xs of Inl e \<Rightarrow> Inl e | Inr ys \<Rightarrow> Inr (y # ys)))"

definition format_item :: "prescription_item \<times> product option \<Rightarrow> error + formatted_item" where
  "format_item x =
     (case snd x of
        None \<Rightarrow> Inl TypeError
      | Some p \<Rightarrow>
          Inr \<lparr> fi_id = pi_id (fst x),
                fi_drugName = prod_name p,
                fi_quantity = pi_quantityPrescribed (fst x),
                fi_available = prod_quantity p,
                fi_hasStock = (pi_quantityPrescribed (fst x) \<le> prod_quantity p),
                fi_unitPrice = pi_unitPrice (fst x),
                fi_totalPrice = pi_totalPrice (fst x) \<rparr>)"

definition short_of_stock :: "prescription_item \<times> product option \<Rightarrow> error + bool" where
  "short_of_stock x =
     (case snd x of
        None \<Rightarrow> Inl TypeError
      | Some p \<Rightarrow> Inr (prod_quantity p < pi_quantityPrescribed (fst x)))"

definition format_prescription :: "db \<Rightarrow> prescription \<Rightarrow> error + formatted_prescription" where
  "format_prescription s p =
     (case include_student s p of
        None \<Rightarrow> Inl TypeError
      | Some st \<Rightarrow>
          (case map_result format_item (include_items s (rx_id p)) of
             Inl e \<Rightarrow> Inl e
           | Inr its \<Rightarrow>
               (case map_result short_of_stock (include_items s (rx_id p)) of
                  Inl e \<Rightarrow> Inl e
                | Inr shorts \<Rightarrow>
                    Inr \<lparr> fp_id = rx_id p,
                          fp_prescriptionNo = rx_prescriptionNo p,
                          fp_studentName = stu_firstName st @ '' '' @ stu_lastName st,
                          fp_priority = rx_priority p,
                          fp_itemCount = length (include_items s (rx_id p)),
                          fp_totalCost = rx_totalCost p,
                          fp_createdAt = rx_createdAt p,
                          fp_items = its,
                          fp_hasStockIssues = list_ex (\<lambda>b. b) shorts \<rparr>)))"

definition priority_count :: "db \<Rightarrow> priority \<Rightarrow> int" where
  "priority_count s pr =
     count_rows (\<lambda>p. rx_status p = Pending \<and> \<not> rx_isDeleted p \<and> rx_priority p = pr)
       (prescriptions s)"

definition pending_GET ::
  "db \<Rightarrow> priority option \<Rightarrow> string option \<Rightarrow> int \<Rightarrow> int \<Rightarrow> pending_response response" where
  "pending_GET s pr search page limit =
     (let offset = (page - 1) * limit;
          matching = filter (pending_where s pr search) (prescriptions s)
      in case skip_take offset limit (order_pending matching) of
           Inl e \<Rightarrow> Failure 500 FailedToFetchPending
         | Inr rows \<Rightarrow>
             (case map_result (format_prescription s) rows of
                Inl e \<Rightarrow> Failure 500 FailedToFetchPending
              | Inr fps \<Rightarrow>
                  Success \<lparr> pr_prescriptions = fps,
                            pr_total = int (length matching),
                            pr_emergency = priority_count s Emergency,
                            pr_urgent = priority_count s Urgent,
                            pr_normal = priority_count s Normal \<rparr>))"

text \<open>The order of the queue, on the rows of a response.\<close>

definition queue_order :: "formatted_prescription \<Rightarrow> formatted_prescription \<Rightarrow> bool" where
  "queue_order a b \<longleftrightarrow>
     priority_rank (fp_priority a) < priority_rank (fp_priority b)
     \<or> (fp_priority a = fp_priority b \<and> fp_createdAt a \<le> fp_createdAt b)"

text \<open>The same order on the rows of the table.\<close>

definition row_order :: "prescription \<Rightarrow> prescription \<Rightarrow> bool" where
  "row_order a b \<longleftrightarrow>
     priority_rank (rx_priority a) < priority_rank (rx_priority b)
     \<or> (rx_priority a = rx_priority b \<and> rx_createdAt a \<le> rx_createdAt b)"

text \<open>A row of the response shows an item of the database with its product.\<close>

definition item_shown :: "prescription_item \<times> product option \<Rightarrow> formatted_item \<Rightarrow> bool" where
  "item_shown x it \<longleftrightarrow>
     (\<exists>p. snd x = Some p \<and> fi_id it = pi_id (fst x)
         \<and> fi_quantity it = pi_quantityPrescribed (fst x)
         \<and> fi_available it = prod_quantity p)"

section \<open>The drug catalogue\<close>

text \<open>
  The body of a create request and the body of an update request.  The handlers coerce
  five fields before they hand the data to the mapper: \<open>parseInt(quantity)\<close>,
  \<open>parseInt(reorderLevel)\<close>, \<open>parseFloat(price)\<close>, \<open>parseFloat(cost)\<close> and
  \<open>new Date(expiryDate)\<close>.  A field of the model holds the result of its coercion: it
  is \<open>None\<close> when the result is \<open>NaN\<close> or an invalid date, which is the case when the
  request does not carry the field or carries a text that does not parse.  An optional
  field is absent when the request does not carry it.
\<close>

record drug_input =
  in_code :: string
  in_name :: string
  in_quantity :: "int option"
  in_reorderLevel :: "int option"
  in_price :: "amount option"
  in_cost :: "amount option"
  in_expiryDate :: "time option"
  in_unit :: "string option"
  in_prescriptionRequired :: "bool option"
  in_createdBy :: ident

record drug_update =
  up_drugId :: ident
  up_code :: string
  up_name :: string
  up_quantity :: "int option"
  up_reorderLevel :: "int option"
  up_price :: "amount option"
  up_cost :: "amount option"
  up_expiryDate :: "time option"
  up_unit :: "string option"
  up_prescriptionRequired :: "bool option"

text \<open>
  The coerced fields as the mapper accepts them: it rejects the data when one of them is
  \<open>NaN\<close> or an invalid date, and the handler then answers 500 and nothing is written.
\<close>

record coerced_fields =
  c_quantity :: int
  c_reorderLevel :: int
  c_price :: amount
  c_cost :: amount
  c_expiryDate :: time

definition coerced ::
  "int option \<Rightarrow> int option \<Rightarrow> amount option \<Rightarrow> amount option \<Rightarrow> time option
     \<Rightarrow> coerced_fields option" where
  "coerced quantity reorderLevel price cost expiryDate =
     (case quantity of None \<Rightarrow> None | Some q \<Rightarrow>
     (case reorderLevel of None \<Rightarrow> None | Some r \<Rightarrow>
     (case price of None \<Rightarrow> None | Some p \<Rightarrow>
     (case cost of None \<Rightarrow> None | Some c \<Rightarrow>
     (case expiryDate of None \<Rightarrow> None | Some e \<Rightarrow>
        Some \<lparr> c_quantity = q, c_reorderLevel = r, c_price = p, c_cost = c,
               c_expiryDate = e \<rparr>)))))"

text \<open>\<open>findMany\<close> of the live drugs, newest first.\<close>

definition drugs_GET :: "db \<Rightarrow> drug list response" where
  "drugs_GET s =
     Success (sort_key (\<lambda>d. - drug_createdAt d) (filter (\<lambda>d. \<not> drug_isDeleted d) (drugs s)))"

text \<open>
  Modelled from the spec: the defaults of the columns that a create request does not set
  are declared in the database schema, which is not among the sources; a new drug is not
  deleted and carries the time of its creation.  The identifier of the new row is
  generated by the mapper; \<open>create\<close> fails when a row has it already.
\<close>

definition drug_row :: "time \<Rightarrow> ident \<Rightarrow> drug_input \<Rightarrow> coerced_fields \<Rightarrow> drug" where
  "drug_row now newId d v =
     \<lparr> drug_id = newId,
       drug_code = in_code d,
       drug_name = in_name d,
       drug_quantity = c_quantity v,
       drug_reorderLevel = c_reorderLevel v,
       drug_price = c_price v,
       drug_cost = c_cost v,
       drug_expiryDate = c_expiryDate v,
       drug_unit = (case in_unit d of
                      None \<Rightarrow> ''Pieces''
                    | Some u \<Rightarrow> if u = [] then ''Pieces'' else u),
       drug_prescriptionRequired = (case in_prescriptionRequired d of
                                      None \<Rightarrow> False
                                    | Some b \<Rightarrow> b),
       drug_createdBy = in_createdBy d,
       drug_isDeleted = False,
       drug_createdAt = now,
       drug_updatedAt = now \<rparr>"

definition new_drug :: "time \<Rightarrow> ident \<Rightarrow> drug_input \<Rightarrow> drug option" where
  "new_drug now newId d =
     (case coerced (in_quantity d) (in_reorderLevel d) (in_price d) (in_cost d)
             (in_expiryDate d) of
        None \<Rightarrow> None
      | Some v \<Rightarrow> Some (drug_row now newId d v))"

definition create_drug :: "drug \<Rightarrow> drug list \<Rightarrow> drug list option" where
  "create_drug row rows =
     (if list_ex (\<lambda>d. drug_id d = drug_id row) rows then None else Some (rows @ [row]))"

definition drugs_POST :: "time \<Rightarrow> ident \<Rightarrow> drug_input \<Rightarrow> db \<Rightarrow> drug response \<times> db" where
  "drugs_POST now newId d s =
     (case find (\<lambda>x. drug_code x = in_code d \<and> \<not> drug_isDeleted x) (drugs s) of
        Some existingDrug \<Rightarrow> (Failure 409 DrugCodeExists, s)
      | None \<Rightarrow>
          (case new_drug now newId d of
             None \<Rightarrow> (Failure 500 FailedToCreateDrug, s)
           | Some row \<Rightarrow>
               (case create_drug row (drugs s) of
                  None \<Rightarrow> (Failure 500 FailedToCreateDrug, s)
                | Some rows \<Rightarrow> (Success row, s\<lparr> drugs := rows \<rparr>))))"

definition apply_update :: "time \<Rightarrow> drug_update \<Rightarrow> coerced_fields \<Rightarrow> drug \<Rightarrow> drug" where
  "apply_update now u v d =
     d\<lparr> drug_code := up_code u,
        drug_name := up_name u,
        drug_quantity := c_quantity v,
        drug_reorderLevel := c_reorderLevel v,
        drug_price := c_price v,
        drug_cost := c_cost v,
        drug_expiryDate := c_expiryDate v,
        drug_unit := (case up_unit u of None \<Rightarrow> drug_unit d | Some x \<Rightarrow> x),
        drug_prescriptionRequired :=
          (case up_prescriptionRequired u of None \<Rightarrow> drug_prescriptionRequired d | Some b \<Rightarrow> b),
        drug_updatedAt := now \<rparr>"

definition drugs_PUT :: "time \<Rightarrow> drug_update \<Rightarrow> db \<Rightarrow> drug response \<times> db" where
  "drugs_PUT now u s =
     (case find (\<lambda>x. drug_id x = up_drugId u \<and> \<not> drug_isDeleted x) (drugs s) of
        None \<Rightarrow> (Failure 404 DrugNotFound, s)
      | Some existingDrug \<Rightarrow>
          if up_code u \<noteq> drug_code existingDrug
             \<and> find (\<lambda>x. drug_code x = up_code u \<and> \<not> drug_isDeleted x
                          \<and> drug_id x \<noteq> up_drugId u) (drugs s) \<noteq> None
          then (Failure 409 DrugCodeExists, s)
          else
            (case coerced (up_quantity u) (up_reorderLevel u) (up_price u) (up_cost u)
                    (up_expiryDate u) of
               None \<Rightarrow> (Failure 500 FailedToUpdateDrug, s)
             | Some v \<Rightarrow>
                 (case update_rows (\<lambda>x. drug_id x = up_drugId u) (apply_update now u v)
                         (drugs s) of
                    None \<Rightarrow> (Failure 500 FailedToUpdateDrug, s)
                  | Some rows \<Rightarrow>
                      (Success (apply_update now u v existingDrug), s\<lparr> drugs := rows \<rparr>))))"

definition soft_delete :: "time \<Rightarrow> drug \<Rightarrow> drug" where
  "soft_delete now d = d\<lparr> drug_isDeleted := True, drug_updatedAt := now \<rparr>"

definition drugs_DELETE :: "time \<Rightarrow> ident \<Rightarrow> db \<Rightarrow> drug response \<times> db" where
  "drugs_DELETE now drugId s =
     (case find (\<lambda>x. drug_id x = drugId) (drugs s) of
        None \<Rightarrow> (Failure 404 DrugNotFound, s)
      | Some drug \<Rightarrow>
          (case update_rows (\<lambda>x. drug_id x = drugId) (soft_delete now) (drugs s) of
             None \<Rightarrow> (Failure 500 FailedToDeleteDrug, s)
           | Some rows \<Rightarrow> (Success (soft_delete now drug), s\<lparr> drugs := rows \<rparr>)))"

text \<open>Runs of requests to the drug endpoints.\<close>

datatype drug_request =
    Create time ident drug_input
  | Update time drug_update
  | Delete time ident

fun apply_drug_request :: "drug_request \<Rightarrow> db \<Rightarrow> db" where
  "apply_drug_request (Create now newId d) s = snd (drugs_POST now newId d s)"
| "apply_drug_request (Update now u) s = snd (drugs_PUT now u s)"
| "apply_drug_request (Delete now drugId) s = snd (drugs_DELETE now drugId s)"

fun run_drug_requests :: "drug_request list \<Rightarrow> db \<Rightarrow> db" where
  "run_drug_requests [] s = s"
| "run_drug_requests (r # rs) s = run_drug_requests rs (apply_drug_request r s)"

definition listed :: "db \<Rightarrow> drug list" where
  "listed s = (case drugs_GET s of Success rows \<Rightarrow> rows | Failure _ _ \<Rightarrow> [])"

text \<open>The drug with a given identifier is kept as a deleted record.\<close>

definition kept_deleted :: "ident \<Rightarrow> db \<Rightarrow> bool" where
  "kept_deleted i s \<longleftrightarrow>
     list_ex (\<lambda>d. drug_id d = i) (drugs s)
     \<and> list_all (\<lambda>d. drug_id d \<noteq> i \<or> drug_isDeleted d) (drugs s)"

section \<open>Preconditions and sequences of operations\<close>

text \<open>
  The failed preconditions of a dispensing request, as the specification lists them: the
  prescription is not a live record, or it is not pending, or a requested item is not an
  item of the prescription, or the product of a requested item has less in stock than
  the request asks for.
\<close>

definition entry_fails :: "(prescription_item \<times> product option) list \<Rightarrow> dispensed_item \<Rightarrow> bool" where
  "entry_fails items d =
     (case find_item items d of
        None \<Rightarrow> True
      | Some (i, None) \<Rightarrow> False
      | Some (i, Some q) \<Rightarrow> prod_quantity q < quantityDispensed d)"

definition precondition_fails :: "db \<Rightarrow> ident \<Rightarrow> dispense_request \<Rightarrow> bool" where
  "precondition_fails s pid body =
     (case find_prescription s pid of
        None \<Rightarrow> True
      | Some p \<Rightarrow>
          rx_status p \<noteq> Pending
          \<or> list_ex (entry_fails (include_items s pid)) (dispensedItems body))"

text \<open>Referential integrity: the product of every prescription item is a row of the product table.\<close>

definition items_have_products :: "db \<Rightarrow> bool" where
  "items_have_products s =
     list_all (\<lambda>i. list_ex (\<lambda>p. prod_id p = pi_productId i) (products s)) (prescriptionItems s)"

text \<open>The two operations that write to the inventory, and runs of them.\<close>

datatype operation =
    Dispense clock ident dispense_request
  | AdjustStock time ident int

fun apply_operation :: "operation \<Rightarrow> db \<Rightarrow> db" where
  "apply_operation (Dispense c pid body) s = snd (dispense_POST c pid body s)"
| "apply_operation (AdjustStock now pid quantity) s = snd (stock_PATCH now pid quantity s)"

fun run :: "operation list \<Rightarrow> db \<Rightarrow> db" where
  "run [] s = s"
| "run (op # ops) s = run ops (apply_operation op s)"

definition requested_ids :: "dispense_request \<Rightarrow> ident list" where
  "requested_ids body = map itemId (dispensedItems body)"

definition item_ids :: "db \<Rightarrow> ident \<Rightarrow> ident list" where
  "item_ids s pid = map (\<lambda>x. pi_id (fst x)) (include_items s pid)"

text \<open>What a request asks of a product in total, and an entry that names the product of its item.\<close>

definition requested_of :: "dispensed_item list \<Rightarrow> ident \<Rightarrow> int" where
  "requested_of ds k = sum_list (map quantityDispensed (filter (\<lambda>d. productId d = k) ds))"

definition names_own_product :: "db \<Rightarrow> ident \<Rightarrow> dispensed_item \<Rightarrow> bool" where
  "names_own_product s pid d =
     (case find_item (include_items s pid) d of
        None \<Rightarrow> True
      | Some x \<Rightarrow> productId d = pi_productId (fst x))"

text \<open>A row after an operation has not gone back to pending.\<close>

definition no_regress :: "prescription \<Rightarrow> prescription \<Rightarrow> bool" where
  "no_regress q q' \<longleftrightarrow> rx_id q' = rx_id q \<and> (rx_status q' = Pending \<longrightarrow> rx_status q = Pending)"

text \<open>The change as the specification words it: the difference, floored at zero.\<close>

definition spec_change :: "amount \<Rightarrow> amount \<Rightarrow> amount" where
  "spec_change paid tot = max 0 (paid - tot)"

section \<open>Example data\<close>

definition mk_item :: "ident \<Rightarrow> ident \<Rightarrow> ident \<Rightarrow> int \<Rightarrow> prescription_item" where
  "mk_item i rx p q =
     \<lparr> pi_id = i, pi_prescriptionId = rx, pi_productId = p, pi_quantityPrescribed = q,
       pi_quantityDispensed = 0, pi_unitPrice = 1, pi_totalPrice = of_int q,
       pi_isDispensed = False, pi_dispensedAt = None, pi_dispensedBy = None \<rparr>"

definition mk_prescription :: "ident \<Rightarrow> string \<Rightarrow> priority \<Rightarrow> time \<Rightarrow> prescription" where
  "mk_prescription i no pr t =
     \<lparr> rx_id = i, rx_prescriptionNo = no, rx_studentId = ''s1'', rx_status = Pending,
       rx_priority = pr, rx_totalCost = 5, rx_createdAt = t, rx_isDeleted = False,
       rx_isDispensed = False, rx_dispensedAt = None, rx_dispensedBy = None,
       rx_amountPaid = None \<rparr>"

definition entry :: "ident \<Rightarrow> ident \<Rightarrow> int \<Rightarrow> dispensed_item" where
  "entry i p q = \<lparr> itemId = i, productId = p, quantityDispensed = q \<rparr>"

definition mk_request :: "dispensed_item list \<Rightarrow> amount \<Rightarrow> amount \<Rightarrow> dispense_request" where
  "mk_request ds tot paid =
     \<lparr> dispensedItems = ds, totalAmount = tot, amountPaid = paid,
       paymentMethod = ''cash'', dispense_notes = [], dispensedBy = ''u1'' \<rparr>"

definition ex_student :: student where
  "ex_student = \<lparr> stu_id = ''s1'', stu_firstName = ''Ada'', stu_lastName = ''Obi'',
                  stu_matricNumber = ''M1'' \<rparr>"

definition ex_clock :: clock where
  "ex_clock = \<lparr> clock_year = 2025, clock_millis = 1735689600123 \<rparr>"

text \<open>
  A pending prescription \<open>rx1\<close> with two items: \<open>iA\<close> (3 units of product \<open>pA\<close>,
  stock 5) and \<open>iB\<close> (2 units of product \<open>pB\<close>, stock 1).
\<close>

definition ex_db :: db where
  "ex_db =
     \<lparr> products = [mk_product ''pA'' ''Amoxicillin'' 5 (Some 10),
                   mk_product ''pB'' ''Ibuprofen'' 1 None],
       prescriptions = [mk_prescription ''rx1'' ''RX-001'' Normal 100],
       prescriptionItems = [mk_item ''iA'' ''rx1'' ''pA'' 3, mk_item ''iB'' ''rx1'' ''pB'' 2],
       students = [ex_student],
       drugDispensals = [],
       balanceTransactions = [],
       drugs = [] \<rparr>"

text \<open>
  A pending prescription \<open>rx2\<close> whose two items \<open>iC\<close> and \<open>iD\<close> both prescribe 3 units
  of the same product \<open>pA\<close>, of which 5 are in stock.
\<close>

definition ex_db_same_product :: db where
  "ex_db_same_product =
     \<lparr> products = [mk_product ''pA'' ''Amoxicillin'' 5 (Some 10)],
       prescriptions = [mk_prescription ''rx2'' ''RX-002'' Normal 100],
       prescriptionItems = [mk_item ''iC'' ''rx2'' ''pA'' 3, mk_item ''iD'' ''rx2'' ''pA'' 3],
       students = [ex_student],
       drugDispensals = [],
       balanceTransactions = [],
       drugs = [] \<rparr>"

text \<open>
  A queue of three pending prescriptions, stored in the order normal, emergency, urgent.
\<close>

definition ex_queue_db :: db where
  "ex_queue_db =
     \<lparr> products = [mk_product ''pA'' ''Amoxicillin'' 5 (Some 10),
                   mk_product ''pB'' ''Ibuprofen'' 1 None],
       prescriptions = [mk_prescription ''rx1'' ''RX-001'' Normal 100,
                        mk_prescription ''rx3'' ''RX-003'' Emergency 300,
                        mk_prescription ''rx4'' ''RX-004'' Urgent 200],
       prescriptionItems = [mk_item ''iA'' ''rx1'' ''pA'' 3, mk_item ''iB'' ''rx1'' ''pB'' 2,
                            mk_item ''iE'' ''rx3'' ''pA'' 1],
       students = [ex_student],
       drugDispensals = [],
       balanceTransactions = [],
       drugs = [] \<rparr>"

definition ex_input :: drug_input where
  "ex_input =
     \<lparr> in_code = ''X1'', in_name = ''Paracetamol'', in_quantity = Some 100,
       in_reorderLevel = Some 10, in_price = Some 5, in_cost = Some 3,
       in_expiryDate = Some 1800000000000, in_unit = None,
       in_prescriptionRequired = None, in_createdBy = ''u1'' \<rparr>"

text \<open>The same request without a price, a cost and an expiry date.\<close>

definition ex_input_unpriced :: drug_input where
  "ex_input_unpriced =
     \<lparr> in_code = ''X1'', in_name = ''Paracetamol'', in_quantity = Some 100,
       in_reorderLevel = Some 10, in_price = None, in_cost = None,
       in_expiryDate = None, in_unit = None,
       in_prescriptionRequired = None, in_createdBy = ''u1'' \<rparr>"

definition empty_db :: db where
  "empty_db =
     \<lparr> products = [], prescriptions = [], prescriptionItems = [], students = [],
       drugDispensals = [], balanceTransactions = [], drugs = [] \<rparr>"

section \<open>Properties of the stock classification\<close>

lemma reorderThreshold_nonzero: "reorderThreshold p \<noteq> 0"
  by (simp add: reorderThreshold_def split: option.split)

text \<open>
  C5, as stated, fails: a product with quantity 5 and a reorder level of 0 is classified
  \<open>low_stock\<close> by the endpoint (the threshold falls back to 10), while the rule of the
  specification, where the fallback applies only to an absent reorder level, gives
  \<open>healthy\<close>.
\<close>

theorem stockStatus_zero_reorderLevel_counterexample:
  "stockStatus (mk_product ''p1'' ''Paracetamol'' 5 (Some 0)) = LowStock
   \<and> spec_stockStatus 5 (Some 0) = Healthy"
  by (simp add: stockStatus_def reorderThreshold_def mk_product_def
        spec_stockStatus_def spec_threshold_def)

text \<open>
  C5, amended: for every product with a non-negative quantity, the endpoint classifies
  it \<open>out_of_stock\<close> if the quantity is 0, \<open>low_stock\<close> if the quantity is positive
  and at most the threshold, and \<open>healthy\<close> otherwise, where the threshold is the
  reorder level when it is present and not 0, and 10 when it is absent or 0; the stock
  percentage is the minimum of quantity / threshold * 100 and 100.
\<close>

theorem stock_classification:
  assumes "0 \<le> prod_quantity p"
  shows "reorderThreshold p =
           (if prod_reorderLevel p = None \<or> prod_reorderLevel p = Some 0 then 10
            else the (prod_reorderLevel p))
         \<and> stockStatus p =
           (if prod_quantity p = 0 then OutOfStock
            else if 0 < prod_quantity p \<and> prod_quantity p \<le> reorderThreshold p then LowStock
            else Healthy)
         \<and> stockPercentage p =
           min (of_int (prod_quantity p) / of_int (reorderThreshold p) * 100) 100"
proof -
  have thr: "reorderThreshold p =
           (if prod_reorderLevel p = None \<or> prod_reorderLevel p = Some 0 then 10
            else the (prod_reorderLevel p))"
    by (cases "prod_reorderLevel p") (simp_all add: reorderThreshold_def)
  have st: "stockStatus p =
           (if prod_quantity p = 0 then OutOfStock
            else if 0 < prod_quantity p \<and> prod_quantity p \<le> reorderThreshold p then LowStock
            else Healthy)"
    using assms by (simp add: stockStatus_def)
  show ?thesis
    using thr st by (simp add: stockPercentage_def)
qed

theorem stock_classification_witness:
  "stockStatus (mk_product ''p1'' ''Paracetamol'' 5 (Some 10)) = LowStock
   \<and> stockPercentage (mk_product ''p1'' ''Paracetamol'' 5 (Some 10)) = 50
   \<and> stockStatus (mk_product ''p2'' ''Ibuprofen'' 0 None) = OutOfStock
   \<and> stockStatus (mk_product ''p3'' ''Amoxicillin'' 11 None) = Healthy"
proof -
  have a: "stockStatus (mk_product ''p1'' ''Paracetamol'' 5 (Some 10)) = LowStock
           \<and> stockPercentage (mk_product ''p1'' ''Paracetamol'' 5 (Some 10)) = 50"
    using stock_classification [of "mk_product ''p1'' ''Paracetamol'' 5 (Some 10)"]
    by (simp add: mk_product_def)
  have b: "stockStatus (mk_product ''p2'' ''Ibuprofen'' 0 None) = OutOfStock"
    using stock_classification [of "mk_product ''p2'' ''Ibuprofen'' 0 None"]
    by (simp add: mk_product_def)
  have c: "stockStatus (mk_product ''p3'' ''Amoxicillin'' 11 None) = Healthy"
    using stock_classification [of "mk_product ''p3'' ''Amoxicillin'' 11 None"]
    by (simp add: mk_product_def)
  show ?thesis using a b c by simp
qed

section \<open>Properties of the stock summary\<close>

lemma length_filter_mono:
  assumes "\<And>x. x \<in> set xs \<Longrightarrow> P x \<Longrightarrow> Q x"
  shows "length (filter P xs) \<le> length (filter Q xs)"
  using assms by (induction xs) auto

lemma length_filter_split:
  "length (filter P xs) =
     length (filter (\<lambda>x. P x \<and> Q x) xs) + length (filter (\<lambda>x. P x \<and> \<not> Q x) xs)"
  by (induction xs) auto

lemma lowStockCount_eq:
  "lowStockCount ps =
     count_rows (\<lambda>p. \<not> prod_isDeleted p \<and> 0 < prod_quantity p
                    \<and> prod_quantity p \<le> reorderThreshold p) ps"
proof -
  have "filter (\<lambda>p. (\<not> prod_isDeleted p \<and> 0 < prod_quantity p) \<and>
             (case prod_reorderLevel p of
               None \<Rightarrow> prod_quantity p \<le> 10
             | Some r \<Rightarrow> if r = 0 then prod_quantity p \<le> 10 else prod_quantity p \<le> r)) ps
        = filter (\<lambda>p. \<not> prod_isDeleted p \<and> 0 < prod_quantity p
                    \<and> prod_quantity p \<le> reorderThreshold p) ps"
    by (rule filter_cong) (auto simp: reorderThreshold_def split: option.splits)
  then show ?thesis
    unfolding lowStockCount_def allProducts_def count_rows_def filter_filter
    by (rule arg_cong)
qed

lemma lowStock_le_inStock:
  "lowStockCount ps \<le> count_rows (\<lambda>p. \<not> prod_isDeleted p) ps - outOfStockCount ps"
proof -
  let ?live = "\<lambda>p. \<not> prod_isDeleted p"
  have split: "length (filter ?live ps) =
      length (filter (\<lambda>p. ?live p \<and> prod_quantity p = 0) ps)
      + length (filter (\<lambda>p. ?live p \<and> \<not> prod_quantity p = 0) ps)"
    by (rule length_filter_split)
  have same: "filter (\<lambda>p. ?live p \<and> prod_quantity p = 0) ps
      = filter (\<lambda>p. prod_quantity p = 0 \<and> \<not> prod_isDeleted p) ps"
    by (rule filter_cong) auto
  have low: "length (filter (\<lambda>p. \<not> prod_isDeleted p \<and> 0 < prod_quantity p
                    \<and> prod_quantity p \<le> reorderThreshold p) ps)
      \<le> length (filter (\<lambda>p. ?live p \<and> \<not> prod_quantity p = 0) ps)"
    by (rule length_filter_mono) auto
  show ?thesis
    using split same low
    by (simp add: lowStockCount_eq count_rows_def outOfStockCount_def)
qed

text \<open>
  C9, as stated, fails in its description of \<open>lowStock\<close>: a live product with quantity
  5 and reorder level 0 is counted as low stock by the endpoint, and is not counted when
  the default threshold applies to an absent reorder level only.
\<close>

theorem lowStock_zero_reorderLevel_counterexample:
  "lowStock (stock_summary_of [mk_product ''p1'' ''Paracetamol'' 5 (Some 0)]) = 1
   \<and> spec_lowStockCount [mk_product ''p1'' ''Paracetamol'' 5 (Some 0)] = 0"
  by (simp add: stock_summary_of_def lowStockCount_def allProducts_def outOfStockCount_def
        count_rows_def spec_lowStockCount_def spec_threshold_def mk_product_def)

text \<open>
  C9, amended: in every stock-levels response, \<open>inStock + outOfStock = totalDrugs\<close> and
  \<open>lowStock \<le> inStock\<close>; \<open>totalDrugs\<close> counts the non-deleted products,
  \<open>outOfStock\<close> those of them with quantity 0, \<open>inStock\<close> is the difference of the
  two, and \<open>lowStock\<close> counts the non-deleted products whose quantity is positive and
  at most the threshold, which is the reorder level when present and not 0, and 10 when
  the reorder level is absent or 0.
\<close>

theorem stock_summary_relations:
  "inStock (stock_summary_of ps) + outOfStock (stock_summary_of ps)
     = totalDrugs (stock_summary_of ps)
   \<and> lowStock (stock_summary_of ps) \<le> inStock (stock_summary_of ps)
   \<and> totalDrugs (stock_summary_of ps) = count_rows (\<lambda>p. \<not> prod_isDeleted p) ps
   \<and> outOfStock (stock_summary_of ps)
     = count_rows (\<lambda>p. prod_quantity p = 0 \<and> \<not> prod_isDeleted p) ps
   \<and> inStock (stock_summary_of ps)
     = totalDrugs (stock_summary_of ps) - outOfStock (stock_summary_of ps)
   \<and> lowStock (stock_summary_of ps)
     = count_rows (\<lambda>p. \<not> prod_isDeleted p \<and> 0 < prod_quantity p
                      \<and> prod_quantity p \<le> reorderThreshold p) ps"
  using lowStock_le_inStock [of ps] lowStockCount_eq [of ps]
  by (simp add: stock_summary_of_def Let_def outOfStockCount_def)

section \<open>The loops of the dispensing transaction\<close>

lemma list_ex_update:
  assumes "\<And>r. P (f r) = P r"
  shows "list_ex P (map (\<lambda>r. if Q r then f r else r) rows) = list_ex P rows"
  using assms by (induction rows) auto

lemma verify_stock_None_iff:
  "verify_stock items ds = None \<longleftrightarrow>
     (\<forall>d\<in>set ds. \<exists>i p. find_item items d = Some (i, Some p)
                        \<and> \<not> prod_quantity p < quantityDispensed d)"
  by (induction ds) (auto split: option.splits)

lemma verify_stock_insufficient:
  "verify_stock items ds = Some (InsufficientStock n a r) \<Longrightarrow>
     \<exists>d\<in>set ds. \<exists>i p. find_item items d = Some (i, Some p)
        \<and> n = prod_name p \<and> a = prod_quantity p \<and> r = quantityDispensed d \<and> a < r"
  by (induction ds) (auto split: option.splits if_splits)

lemma update_dispensed_tables:
  "update_dispensed now by ds s = (r, s') \<Longrightarrow>
     prescriptions s' = prescriptions s \<and> students s' = students s
     \<and> drugDispensals s' = drugDispensals s \<and> balanceTransactions s' = balanceTransactions s
     \<and> drugs s' = drugs s
     \<and> map prod_id (products s') = map prod_id (products s)
     \<and> map pi_id (prescriptionItems s') = map pi_id (prescriptionItems s)"
proof (induction ds arbitrary: s)
  case Nil
  then show ?case by simp
next
  case (Cons d ds)
  show ?case
  proof (cases "update_rows (\<lambda>i. pi_id i = itemId d) (mark_dispensed now by d) (prescriptionItems s)")
    case None
    with Cons.prems show ?thesis by simp
  next
    case (Some is')
    note items = Some
    have ids: "map pi_id is' = map pi_id (prescriptionItems s)"
      using items by (auto simp: update_rows_def mark_dispensed_def split: if_splits)
    show ?thesis
    proof (cases "update_rows (\<lambda>p. prod_id p = productId d) (decrement d) (products s)")
      case None
      with Cons.prems items ids show ?thesis by auto
    next
      case (Some ps')
      have pids: "map prod_id ps' = map prod_id (products s)"
        using Some by (auto simp: update_rows_def decrement_def split: if_splits)
      from Cons.prems items Some
      have "update_dispensed now by ds (s\<lparr> prescriptionItems := is', products := ps' \<rparr>) = (r, s')"
        by simp
      from Cons.IH [OF this] ids pids show ?thesis by simp
    qed
  qed
qed

lemma list_ex_map_key: "list_ex (\<lambda>r. key r = k) rows \<longleftrightarrow> k \<in> set (map key rows)"
  by (auto simp: list_ex_iff)

lemma update_dispensed_ok_iff:
  "(\<exists>s'. update_dispensed now by ds s = (Inr (), s')) \<longleftrightarrow>
     (\<forall>d\<in>set ds. list_ex (\<lambda>i. pi_id i = itemId d) (prescriptionItems s)
                 \<and> list_ex (\<lambda>p. prod_id p = productId d) (products s))"
proof (induction ds arbitrary: s)
  case Nil
  then show ?case by simp
next
  case (Cons d ds)
  show ?case
  proof (cases "update_rows (\<lambda>i. pi_id i = itemId d) (mark_dispensed now by d) (prescriptionItems s)")
    case None
    then show ?thesis by (auto simp: update_rows_def split: if_splits)
  next
    case (Some is')
    note items = Some
    have ex1: "list_ex (\<lambda>i. pi_id i = itemId d) (prescriptionItems s)"
      using items by (auto simp: update_rows_def split: if_splits)
    have ids: "map pi_id is' = map pi_id (prescriptionItems s)"
      using items by (auto simp: update_rows_def mark_dispensed_def split: if_splits)
    show ?thesis
    proof (cases "update_rows (\<lambda>p. prod_id p = productId d) (decrement d) (products s)")
      case None
      with items show ?thesis by (auto simp: update_rows_def split: if_splits)
    next
      case (Some ps')
      have ex2: "list_ex (\<lambda>p. prod_id p = productId d) (products s)"
        using Some by (auto simp: update_rows_def split: if_splits)
      have pids: "map prod_id ps' = map prod_id (products s)"
        using Some by (auto simp: update_rows_def decrement_def split: if_splits)
      have "(\<exists>s'. update_dispensed now by (d # ds) s = (Inr (), s'))
            \<longleftrightarrow> (\<exists>s'. update_dispensed now by ds (s\<lparr> prescriptionItems := is', products := ps' \<rparr>) = (Inr (), s'))"
        using items Some by simp
      also have "\<dots> \<longleftrightarrow> (\<forall>d\<in>set ds. list_ex (\<lambda>i. pi_id i = itemId d) is'
                 \<and> list_ex (\<lambda>p. prod_id p = productId d) ps')"
        using Cons.IH [of "s\<lparr> prescriptionItems := is', products := ps' \<rparr>"] by simp
      also have "\<dots> \<longleftrightarrow> (\<forall>d\<in>set ds. list_ex (\<lambda>i. pi_id i = itemId d) (prescriptionItems s)
                 \<and> list_ex (\<lambda>p. prod_id p = productId d) (products s))"
        using ids pids by (simp add: list_ex_map_key)
      finally show ?thesis using ex1 ex2 by simp
    qed
  qed
qed

lemma find_map_key:
  assumes "\<And>x. P (g x) = P x"
  shows "find P (map g xs) = map_option g (find P xs)"
  using assms by (induction xs) auto

lemma find_Some_list_ex: "find P xs = Some x \<Longrightarrow> list_ex P xs \<and> P x \<and> x \<in> set xs"
  by (induction xs) (auto split: if_splits)

lemma find_None_list_ex: "find P xs = None \<longleftrightarrow> \<not> list_ex P xs"
  by (induction xs) auto

lemma dispense_tx_success:
  assumes "dispense_tx c pid body s = (Inr r, s')"
  shows "\<exists>p s2 rs. find_prescription s pid = Some p \<and> rx_status p = Pending
          \<and> verify_stock (include_items s pid) (dispensedItems body) = None
          \<and> update_dispensed (new_Date c) (dispensedBy body) (dispensedItems body)
               (s\<lparr> drugDispensals := drugDispensals s @ [new_dispensal c p body] \<rparr>) = (Inr (), s2)
          \<and> update_rows (\<lambda>q. rx_id q = rx_id p)
               (set_dispensed (new_Date c) body
                  (length (dispensedItems body) = length (include_items s pid)))
               (prescriptions s2) = Some rs
          \<and> s' = (if 0 < amountPaid body
                   then s2\<lparr> prescriptions := rs,
                            balanceTransactions := balanceTransactions s2 @ [payment p body] \<rparr>
                   else s2\<lparr> prescriptions := rs \<rparr>)
          \<and> r = \<lparr> res_dispensal = new_dispensal c p body,
                   res_prescription = p\<lparr> rx_status := new_status
                      (length (dispensedItems body) = length (include_items s pid)) \<rparr>,
                   res_student = include_student s p \<rparr>"
  using assms
  by (auto simp: dispense_tx_def Let_def split: option.splits if_splits prod.splits sum.splits)

lemma entry_fails_iff:
  "entry_fails items d \<longleftrightarrow>
     (find_item items d = None
      \<or> (\<exists>i q. find_item items d = Some (i, Some q) \<and> prod_quantity q < quantityDispensed d))"
proof (cases "find_item items d")
  case None
  then show ?thesis by (simp add: entry_fails_def)
next
  case (Some x)
  obtain i po where x: "x = (i, po)" by (cases x)
  show ?thesis using Some x by (cases po) (simp_all add: entry_fails_def)
qed

lemma precondition_fails_iff:
  "precondition_fails s pid body \<longleftrightarrow>
     (find_prescription s pid = None
      \<or> (\<exists>p. find_prescription s pid = Some p \<and> rx_status p \<noteq> Pending)
      \<or> (\<exists>p. find_prescription s pid = Some p
            \<and> (\<exists>d\<in>set (dispensedItems body). entry_fails (include_items s pid) d)))"
  by (cases "find_prescription s pid") (auto simp: precondition_fails_def list_ex_iff)

lemma verify_stock_fails:
  assumes "list_ex (entry_fails items) ds"
  shows "verify_stock items ds \<noteq> None"
proof -
  from assms obtain d where d: "d \<in> set ds" "entry_fails items d"
    by (auto simp: list_ex_iff)
  show ?thesis
  proof
    assume "verify_stock items ds = None"
    with d(1) obtain i p where "find_item items d = Some (i, Some p)"
      "\<not> prod_quantity p < quantityDispensed d"
      by (auto simp: verify_stock_None_iff)
    with d(2) show False by (simp add: entry_fails_def)
  qed
qed

lemma precondition_fails_tx:
  assumes "precondition_fails s pid body"
  shows "\<exists>e. dispense_tx c pid body s = (Inl e, s)"
proof (cases "find_prescription s pid")
  case None
  then show ?thesis by (simp add: dispense_tx_def)
next
  case (Some p)
  show ?thesis
  proof (cases "rx_status p = Pending")
    case False
    with Some show ?thesis by (simp add: dispense_tx_def)
  next
    case True
    with Some assms have "verify_stock (include_items s pid) (dispensedItems body) \<noteq> None"
      by (intro verify_stock_fails) (simp add: precondition_fails_def)
    then obtain e where "verify_stock (include_items s pid) (dispensedItems body) = Some e"
      by auto
    with Some True show ?thesis by (simp add: dispense_tx_def)
  qed
qed

section \<open>Failure of a precondition leaves the database as it was\<close>

text \<open>
  C1: when a precondition of a dispensing request fails (the prescription is not found or
  is soft-deleted, its status is not pending, a requested item is not an item of the
  prescription, or the stock of the product of a requested item is insufficient), the
  request is answered by a failure and the database after the request is the database
  before it: the status of the prescription, every prescription item and every product
  quantity are unchanged, and neither a dispensal nor a balance transaction is created.
  The body of the transaction has not written anything when it throws.
\<close>

theorem dispense_precondition_failure_rollback:
  assumes "precondition_fails s pid body"
  shows "\<exists>e. dispense_tx c pid body s = (Inl e, s)
             \<and> dispense_POST c pid body s = (Failure 500 e, s)"
proof -
  from precondition_fails_tx [OF assms]
  obtain e where "dispense_tx c pid body s = (Inl e, s)" by blast
  then show ?thesis by (simp add: dispense_POST_def transaction_def)
qed

lemmas ex_defs = ex_db_def mk_product_def mk_item_def mk_prescription_def entry_def mk_request_def ex_student_def
lemmas tx_defs = dispense_POST_def transaction_def dispense_tx_def find_prescription_def include_items_def include_student_def find_item_def update_rows_def mark_dispensed_def decrement_def new_dispensal_def new_status_def set_dispensed_def payment_def Let_def

theorem dispense_precondition_failure_rollback_witness:
  "precondition_fails ex_db ''rx1'' (mk_request [entry ''iA'' ''pA'' 3, entry ''iB'' ''pB'' 2] 5 5)
   \<and> dispense_POST ex_clock ''rx1'' (mk_request [entry ''iA'' ''pA'' 3, entry ''iB'' ''pB'' 2] 5 5) ex_db
       = (Failure 500 (InsufficientStock ''Ibuprofen'' 1 2), ex_db)"
proof -
  let ?req = "mk_request [entry ''iA'' ''pA'' 3, entry ''iB'' ''pB'' 2] 5 5"
  have h: "precondition_fails ex_db ''rx1'' ?req"
    by (simp add: precondition_fails_def entry_fails_def ex_defs find_prescription_def include_items_def find_item_def)
  from dispense_precondition_failure_rollback [OF h, of ex_clock]
  obtain e where e: "dispense_POST ex_clock ''rx1'' ?req ex_db = (Failure 500 e, ex_db)"
    by blast
  have "fst (dispense_POST ex_clock ''rx1'' ?req ex_db) = Failure 500 (InsufficientStock ''Ibuprofen'' 1 2)"
    by (simp add: ex_defs tx_defs)
  with e h show ?thesis by simp
qed

section \<open>When the dispensing transaction fails\<close>

lemma find_item_include:
  assumes "find_item (include_items s pid) d = Some (i, po)"
  shows "i \<in> set (prescriptionItems s) \<and> pi_id i = itemId d \<and> pi_prescriptionId i = pid
         \<and> po = find (\<lambda>p. prod_id p = pi_productId i) (products s)"
proof -
  from assms have "(i, po) \<in> set (include_items s pid) \<and> pi_id (fst (i, po)) = itemId d"
    unfolding find_item_def by (auto dest: find_Some_list_ex)
  then show ?thesis by (auto simp: include_items_def)
qed

lemma find_item_has_product:
  assumes "items_have_products s" "find_item (include_items s pid) d = Some (i, po)"
  shows "po \<noteq> None"
proof -
  from find_item_include [OF assms(2)]
  have i: "i \<in> set (prescriptionItems s)"
    and po: "po = find (\<lambda>p. prod_id p = pi_productId i) (products s)" by simp_all
  from assms(1) i have "list_ex (\<lambda>p. prod_id p = pi_productId i) (products s)"
    by (simp add: items_have_products_def list_all_iff)
  with po show ?thesis by (simp add: find_None_list_ex)
qed

lemma verify_stock_passes:
  assumes "items_have_products s"
    and "\<not> list_ex (entry_fails (include_items s pid)) ds"
  shows "verify_stock (include_items s pid) ds = None"
proof -
  have "\<exists>i p. find_item (include_items s pid) d = Some (i, Some p)
          \<and> \<not> prod_quantity p < quantityDispensed d" if d: "d \<in> set ds" for d
  proof -
    from assms(2) d have nf: "\<not> entry_fails (include_items s pid) d"
      by (auto simp: list_ex_iff)
    then obtain i po where f: "find_item (include_items s pid) d = Some (i, po)"
      by (cases "find_item (include_items s pid) d") (auto simp: entry_fails_def)
    with find_item_has_product [OF assms(1) f] obtain p where "po = Some p" by auto
    with f nf show ?thesis by (auto simp: entry_fails_def)
  qed
  then show ?thesis by (simp add: verify_stock_None_iff)
qed

lemma verify_stock_items_exist:
  assumes "verify_stock (include_items s pid) ds = None" "d \<in> set ds"
  shows "list_ex (\<lambda>i. pi_id i = itemId d) (prescriptionItems s)"
proof -
  from assms obtain i p where "find_item (include_items s pid) d = Some (i, Some p)"
    by (auto simp: verify_stock_None_iff)
  from find_item_include [OF this] show ?thesis by (auto simp: list_ex_iff)
qed

lemma update_dispensed_error:
  "update_dispensed now by ds s = (Inl e, s') \<Longrightarrow> e = RecordNotFound"
  by (induction ds arbitrary: s) (auto split: option.splits)

lemma update_dispensed_cases:
  "(\<exists>s'. update_dispensed now by ds s = (Inr (), s'))
   \<or> (\<exists>s'. update_dispensed now by ds s = (Inl RecordNotFound, s'))"
proof (cases "update_dispensed now by ds s")
  case (Pair r s')
  then show ?thesis
    by (cases r) (auto dest: update_dispensed_error)
qed

lemma dispense_tx_passes:
  assumes pre: "\<not> precondition_fails s pid body"
    and fk: "items_have_products s"
    and prods: "\<forall>d\<in>set (dispensedItems body). list_ex (\<lambda>p. prod_id p = productId d) (products s)"
  shows "\<exists>r s'. dispense_tx c pid body s = (Inr r, s')"
proof -
  from pre obtain p where p: "find_prescription s pid = Some p" "rx_status p = Pending"
    and nf: "\<not> list_ex (entry_fails (include_items s pid)) (dispensedItems body)"
    by (cases "find_prescription s pid") (auto simp: precondition_fails_def)
  have v: "verify_stock (include_items s pid) (dispensedItems body) = None"
    by (rule verify_stock_passes [OF fk nf])
  let ?s1 = "s\<lparr> drugDispensals := drugDispensals s @ [new_dispensal c p body] \<rparr>"
  have "\<forall>d\<in>set (dispensedItems body).
          list_ex (\<lambda>i. pi_id i = itemId d) (prescriptionItems ?s1)
          \<and> list_ex (\<lambda>p. prod_id p = productId d) (products ?s1)"
    using verify_stock_items_exist [OF v] prods by simp
  then obtain s2 where u: "update_dispensed (new_Date c) (dispensedBy body) (dispensedItems body) ?s1 = (Inr (), s2)"
    using update_dispensed_ok_iff [of "new_Date c" "dispensedBy body" "dispensedItems body" ?s1]
    by blast
  from update_dispensed_tables [OF u] have "prescriptions s2 = prescriptions s" by simp
  moreover from p(1) have "list_ex (\<lambda>q. rx_id q = rx_id p) (prescriptions s)"
    unfolding find_prescription_def by (auto dest!: find_Some_list_ex simp: list_ex_iff)
  ultimately obtain rs where "update_rows (\<lambda>q. rx_id q = rx_id p)
               (set_dispensed (new_Date c) body
                  (length (dispensedItems body) = length (include_items s pid)))
               (prescriptions s2) = Some rs"
    by (simp add: update_rows_def)
  with p v u show ?thesis
    by (simp add: dispense_tx_def Let_def)
qed

lemma dispense_tx_missing_product:
  assumes pre: "\<not> precondition_fails s pid body"
    and fk: "items_have_products s"
    and prods: "\<exists>d\<in>set (dispensedItems body). \<not> list_ex (\<lambda>p. prod_id p = productId d) (products s)"
  shows "\<exists>s'. dispense_tx c pid body s = (Inl RecordNotFound, s')"
proof -
  from pre obtain p where p: "find_prescription s pid = Some p" "rx_status p = Pending"
    and nf: "\<not> list_ex (entry_fails (include_items s pid)) (dispensedItems body)"
    by (cases "find_prescription s pid") (auto simp: precondition_fails_def)
  have v: "verify_stock (include_items s pid) (dispensedItems body) = None"
    by (rule verify_stock_passes [OF fk nf])
  let ?s1 = "s\<lparr> drugDispensals := drugDispensals s @ [new_dispensal c p body] \<rparr>"
  have "\<not> (\<exists>s2. update_dispensed (new_Date c) (dispensedBy body) (dispensedItems body) ?s1 = (Inr (), s2))"
    using prods update_dispensed_ok_iff [of "new_Date c" "dispensedBy body" "dispensedItems body" ?s1]
    by auto
  with update_dispensed_cases [of "new_Date c" "dispensedBy body" "dispensedItems body" ?s1]
  obtain s2 where "update_dispensed (new_Date c) (dispensedBy body) (dispensedItems body) ?s1 = (Inl RecordNotFound, s2)"
    by blast
  with p v show ?thesis
    by (simp add: dispense_tx_def Let_def)
qed

lemma dispense_tx_insufficient:
  assumes "fst (dispense_tx c pid body s) = Inl (InsufficientStock n a r)"
  shows "verify_stock (include_items s pid) (dispensedItems body) = Some (InsufficientStock n a r)"
proof (cases "find_prescription s pid")
  case None
  with assms show ?thesis by (simp add: dispense_tx_def)
next
  case (Some p)
  show ?thesis
  proof (cases "rx_status p = Pending")
    case False
    with Some assms show ?thesis by (simp add: dispense_tx_def)
  next
    case True
    show ?thesis
    proof (cases "verify_stock (include_items s pid) (dispensedItems body)")
      case (Some e)
      with \<open>find_prescription s pid = Some p\<close> True assms show ?thesis
        by (simp add: dispense_tx_def)
    next
      case None
      let ?s1 = "s\<lparr> drugDispensals := drugDispensals s @ [new_dispensal c p body] \<rparr>"
      obtain x s2 where u: "update_dispensed (new_Date c) (dispensedBy body) (dispensedItems body) ?s1 = (x, s2)"
        by (cases "update_dispensed (new_Date c) (dispensedBy body) (dispensedItems body) ?s1")
      show ?thesis
      proof (cases x)
        case (Inl e)
        with u have "e = RecordNotFound" by (auto dest: update_dispensed_error)
        with Inl u None \<open>find_prescription s pid = Some p\<close> True assms show ?thesis
          by (simp add: dispense_tx_def Let_def)
      next
        case (Inr y)
        with u None \<open>find_prescription s pid = Some p\<close> True assms show ?thesis
          by (simp add: dispense_tx_def Let_def split: option.splits)
      qed
    qed
  qed
qed

text \<open>
  C2, as stated, fails in its ``only if'' direction: the inventory is decremented under
  the product identifier that the request carries, and the update of a product that does
  not exist fails.  Here item \<open>iA\<close> of the pending prescription \<open>rx1\<close> is requested with
  3 units, 5 are in stock, and the request names the product \<open>pX\<close>, which no row has: none
  of the four listed conditions holds and the transaction fails.
\<close>

theorem dispense_missing_product_counterexample:
  "fst (dispense_tx ex_clock ''rx1'' (mk_request [entry ''iA'' ''pX'' 3] 3 3) ex_db)
     = Inl RecordNotFound
   \<and> \<not> precondition_fails ex_db ''rx1'' (mk_request [entry ''iA'' ''pX'' 3] 3 3)"
  by (simp add: ex_defs tx_defs precondition_fails_def entry_fails_def)

lemma verify_stock_append:
  "verify_stock items (pre @ rest) =
     (case verify_stock items pre of None \<Rightarrow> verify_stock items rest | Some e \<Rightarrow> Some e)"
  by (induction pre) (auto split: option.splits)

lemma verify_stock_split:
  "verify_stock items ds = Some e \<Longrightarrow>
     \<exists>pre d post. ds = pre @ d # post \<and> verify_stock items pre = None
        \<and> verify_stock items [d] = Some e"
proof (induction ds)
  case Nil
  then show ?case by simp
next
  case (Cons a ds)
  show ?case
  proof (cases "verify_stock items [a]")
    case (Some e')
    with Cons.prems have "e' = e" by (auto split: option.splits if_splits)
    with Some have "a # ds = [] @ a # ds \<and> verify_stock items [] = None
        \<and> verify_stock items [a] = Some e" by simp
    then show ?thesis by blast
  next
    case None
    with Cons.prems have "verify_stock items ds = Some e"
      by (auto split: option.splits if_splits)
    from Cons.IH [OF this] obtain pre d post where
      "ds = pre @ d # post" "verify_stock items pre = None" "verify_stock items [d] = Some e"
      by blast
    with None have "a # ds = (a # pre) @ d # post \<and> verify_stock items (a # pre) = None
        \<and> verify_stock items [d] = Some e"
      using verify_stock_append [of items "[a]" pre] by simp
    then show ?thesis by blast
  qed
qed

lemma verify_stock_single_short:
  "verify_stock items [d] = Some (InsufficientStock n a r) \<longleftrightarrow>
     (\<exists>i q. find_item items d = Some (i, Some q) \<and> prod_quantity q < quantityDispensed d
        \<and> n = prod_name q \<and> a = prod_quantity q \<and> r = quantityDispensed d)"
  by (auto split: option.splits)

lemma verify_stock_insufficient_iff:
  "verify_stock items ds = Some (InsufficientStock n a r) \<longleftrightarrow>
     (\<exists>pre d post i q. ds = pre @ d # post \<and> verify_stock items pre = None
        \<and> find_item items d = Some (i, Some q) \<and> prod_quantity q < quantityDispensed d
        \<and> n = prod_name q \<and> a = prod_quantity q \<and> r = quantityDispensed d)"
proof
  assume "verify_stock items ds = Some (InsufficientStock n a r)"
  from verify_stock_split [OF this] obtain pre d post where
    "ds = pre @ d # post" "verify_stock items pre = None"
    "verify_stock items [d] = Some (InsufficientStock n a r)"
    by blast
  then show "\<exists>pre d post i q. ds = pre @ d # post \<and> verify_stock items pre = None
        \<and> find_item items d = Some (i, Some q) \<and> prod_quantity q < quantityDispensed d
        \<and> n = prod_name q \<and> a = prod_quantity q \<and> r = quantityDispensed d"
    unfolding verify_stock_single_short by blast
next
  assume "\<exists>pre d post i q. ds = pre @ d # post \<and> verify_stock items pre = None
        \<and> find_item items d = Some (i, Some q) \<and> prod_quantity q < quantityDispensed d
        \<and> n = prod_name q \<and> a = prod_quantity q \<and> r = quantityDispensed d"
  then obtain pre d post i q where ds: "ds = pre @ d # post"
    and pre: "verify_stock items pre = None"
    and d: "find_item items d = Some (i, Some q)" "prod_quantity q < quantityDispensed d"
      "n = prod_name q" "a = prod_quantity q" "r = quantityDispensed d"
    by blast
  from d have "verify_stock items (d # post) = Some (InsufficientStock n a r)" by simp
  with pre show "verify_stock items ds = Some (InsufficientStock n a r)"
    unfolding ds verify_stock_append by simp
qed

lemma verify_stock_names_short:
  assumes known: "\<forall>d\<in>set ds. \<exists>i q. find_item items d = Some (i, Some q)"
    and short: "\<exists>d\<in>set ds. entry_fails items d"
  shows "\<exists>d\<in>set ds. \<exists>i q. find_item items d = Some (i, Some q)
           \<and> prod_quantity q < quantityDispensed d
           \<and> verify_stock items ds
               = Some (InsufficientStock (prod_name q) (prod_quantity q) (quantityDispensed d))"
  using assms
proof (induction ds)
  case Nil
  then show ?case by simp
next
  case (Cons a ds)
  from Cons.prems(1) obtain i q where a: "find_item items a = Some (i, Some q)" by auto
  show ?case
  proof (cases "prod_quantity q < quantityDispensed a")
    case True
    with a show ?thesis by auto
  next
    case False
    with a have "\<not> entry_fails items a" by (simp add: entry_fails_def)
    with Cons.prems have "\<forall>d\<in>set ds. \<exists>i q. find_item items d = Some (i, Some q)"
      "\<exists>d\<in>set ds. entry_fails items d" by auto
    from Cons.IH [OF this] obtain d j p where
      "d \<in> set ds" "find_item items d = Some (j, Some p)" "prod_quantity p < quantityDispensed d"
      "verify_stock items ds
         = Some (InsufficientStock (prod_name p) (prod_quantity p) (quantityDispensed d))"
      by blast
    with a False show ?thesis by auto
  qed
qed

lemma dispense_tx_check_fails:
  assumes "find_prescription s pid = Some p" "rx_status p = Pending"
    "verify_stock (include_items s pid) (dispensedItems body) = Some e"
  shows "dispense_tx c pid body s = (Inl e, s)"
    and "dispense_POST c pid body s = (Failure 500 e, s)"
  using assms by (simp_all add: dispense_tx_def dispense_POST_def transaction_def)

lemma dispense_tx_insufficient_iff:
  "fst (dispense_tx c pid body s) = Inl (InsufficientStock n a r) \<longleftrightarrow>
     (\<exists>p. find_prescription s pid = Some p \<and> rx_status p = Pending)
     \<and> verify_stock (include_items s pid) (dispensedItems body) = Some (InsufficientStock n a r)"
proof
  assume e: "fst (dispense_tx c pid body s) = Inl (InsufficientStock n a r)"
  have "\<exists>p. find_prescription s pid = Some p \<and> rx_status p = Pending"
  proof (cases "find_prescription s pid")
    case None
    with e show ?thesis by (simp add: dispense_tx_def)
  next
    case (Some p)
    with e show ?thesis by (cases "rx_status p = Pending") (simp_all add: dispense_tx_def)
  qed
  with dispense_tx_insufficient [OF e]
  show "(\<exists>p. find_prescription s pid = Some p \<and> rx_status p = Pending)
     \<and> verify_stock (include_items s pid) (dispensedItems body) = Some (InsufficientStock n a r)"
    by simp
next
  assume "(\<exists>p. find_prescription s pid = Some p \<and> rx_status p = Pending)
     \<and> verify_stock (include_items s pid) (dispensedItems body) = Some (InsufficientStock n a r)"
  then obtain p where "find_prescription s pid = Some p" "rx_status p = Pending"
    "verify_stock (include_items s pid) (dispensedItems body) = Some (InsufficientStock n a r)"
    by blast
  from dispense_tx_check_fails(1) [OF this, of c]
  show "fst (dispense_tx c pid body s) = Inl (InsufficientStock n a r)" by simp
qed

text \<open>
  C2, amended: in a database where the product of every prescription item exists, the
  dispensing transaction fails if and only if the prescription does not exist as a live
  record, or its status is not pending, or some requested item id is not in the item set
  of the prescription, or the product of some requested item has strictly less in stock
  than the requested quantity, or the product identifier of some requested entry names
  no product.  In the insufficient-stock case, that is, when the prescription is live and
  pending, every requested item id is in its item set and the product of some requested
  item has less in stock than requested, the request is answered with the error for
  insufficient stock of such an item: it names the product and states the quantity in
  stock and the requested quantity, and the database is unchanged.  The error for
  insufficient stock with a given name and quantities is returned exactly when the
  prescription is live and pending and the first requested entry that does not pass the
  check is an entry for a product of that name, with that quantity in stock and that
  requested quantity, the first less than the second.
\<close>

theorem dispense_fails_iff:
  assumes "items_have_products s"
  shows "((\<exists>e. fst (dispense_tx c pid body s) = Inl e) \<longleftrightarrow>
            (precondition_fails s pid body
             \<or> (\<exists>d\<in>set (dispensedItems body).
                   \<not> list_ex (\<lambda>p. prod_id p = productId d) (products s))))
         \<and> ((\<exists>p. find_prescription s pid = Some p \<and> rx_status p = Pending)
              \<and> (\<forall>d\<in>set (dispensedItems body). find_item (include_items s pid) d \<noteq> None)
              \<and> (\<exists>d\<in>set (dispensedItems body). entry_fails (include_items s pid) d)
             \<longrightarrow>
               (\<exists>d\<in>set (dispensedItems body). \<exists>i q.
                   find_item (include_items s pid) d = Some (i, Some q)
                   \<and> prod_quantity q < quantityDispensed d
                   \<and> dispense_POST c pid body s
                       = (Failure 500 (InsufficientStock (prod_name q) (prod_quantity q)
                                         (quantityDispensed d)), s)
                   \<and> message (InsufficientStock (prod_name q) (prod_quantity q)
                                 (quantityDispensed d))
                       = ''Insufficient stock for '' @ prod_name q @ ''. Available: ''
                           @ show_int (prod_quantity q) @ '', Required: ''
                           @ show_int (quantityDispensed d)))
         \<and> (\<forall>n a r. fst (dispense_tx c pid body s) = Inl (InsufficientStock n a r) \<longleftrightarrow>
               (\<exists>p pre d post i q.
                   find_prescription s pid = Some p \<and> rx_status p = Pending
                   \<and> dispensedItems body = pre @ d # post
                   \<and> verify_stock (include_items s pid) pre = None
                   \<and> find_item (include_items s pid) d = Some (i, Some q)
                   \<and> prod_quantity q < quantityDispensed d
                   \<and> n = prod_name q \<and> a = prod_quantity q \<and> r = quantityDispensed d))"
proof (intro conjI)
  show "(\<exists>e. fst (dispense_tx c pid body s) = Inl e) \<longleftrightarrow>
            (precondition_fails s pid body
             \<or> (\<exists>d\<in>set (dispensedItems body).
                   \<not> list_ex (\<lambda>p. prod_id p = productId d) (products s)))"
  proof
    assume "\<exists>e. fst (dispense_tx c pid body s) = Inl e"
    then obtain e where e: "fst (dispense_tx c pid body s) = Inl e" ..
    show "precondition_fails s pid body
        \<or> (\<exists>d\<in>set (dispensedItems body). \<not> list_ex (\<lambda>p. prod_id p = productId d) (products s))"
    proof (rule ccontr)
      assume "\<not> ?thesis"
      then have "\<exists>r s'. dispense_tx c pid body s = (Inr r, s')"
        using dispense_tx_passes [OF _ assms, of pid body c] by blast
      with e show False by auto
    qed
  next
    assume rhs: "precondition_fails s pid body
        \<or> (\<exists>d\<in>set (dispensedItems body). \<not> list_ex (\<lambda>p. prod_id p = productId d) (products s))"
    show "\<exists>e. fst (dispense_tx c pid body s) = Inl e"
    proof (cases "precondition_fails s pid body")
      case True
      from precondition_fails_tx [OF this, of c] show ?thesis by auto
    next
      case False
      with rhs have "\<exists>d\<in>set (dispensedItems body). \<not> list_ex (\<lambda>p. prod_id p = productId d) (products s)"
        by blast
      from dispense_tx_missing_product [OF False assms this, of c] show ?thesis by auto
    qed
  qed
next
  show "(\<exists>p. find_prescription s pid = Some p \<and> rx_status p = Pending)
              \<and> (\<forall>d\<in>set (dispensedItems body). find_item (include_items s pid) d \<noteq> None)
              \<and> (\<exists>d\<in>set (dispensedItems body). entry_fails (include_items s pid) d)
             \<longrightarrow>
               (\<exists>d\<in>set (dispensedItems body). \<exists>i q.
                   find_item (include_items s pid) d = Some (i, Some q)
                   \<and> prod_quantity q < quantityDispensed d
                   \<and> dispense_POST c pid body s
                       = (Failure 500 (InsufficientStock (prod_name q) (prod_quantity q)
                                         (quantityDispensed d)), s)
                   \<and> message (InsufficientStock (prod_name q) (prod_quantity q)
                                 (quantityDispensed d))
                       = ''Insufficient stock for '' @ prod_name q @ ''. Available: ''
                           @ show_int (prod_quantity q) @ '', Required: ''
                           @ show_int (quantityDispensed d))"
  proof
    assume h: "(\<exists>p. find_prescription s pid = Some p \<and> rx_status p = Pending)
              \<and> (\<forall>d\<in>set (dispensedItems body). find_item (include_items s pid) d \<noteq> None)
              \<and> (\<exists>d\<in>set (dispensedItems body). entry_fails (include_items s pid) d)"
    then obtain p where p: "find_prescription s pid = Some p" "rx_status p = Pending" by blast
    have known: "\<forall>d\<in>set (dispensedItems body). \<exists>i q.
        find_item (include_items s pid) d = Some (i, Some q)"
    proof
      fix d assume "d \<in> set (dispensedItems body)"
      with h obtain i po where f: "find_item (include_items s pid) d = Some (i, po)"
        by (cases "find_item (include_items s pid) d") auto
      from find_item_has_product [OF assms f] obtain q where "po = Some q" by auto
      with f show "\<exists>i q. find_item (include_items s pid) d = Some (i, Some q)" by blast
    qed
    from h have short: "\<exists>d\<in>set (dispensedItems body). entry_fails (include_items s pid) d"
      by blast
    from verify_stock_names_short [OF known short] obtain d i q where
      d: "d \<in> set (dispensedItems body)" "find_item (include_items s pid) d = Some (i, Some q)"
        "prod_quantity q < quantityDispensed d"
      and v: "verify_stock (include_items s pid) (dispensedItems body)
               = Some (InsufficientStock (prod_name q) (prod_quantity q) (quantityDispensed d))"
      by blast
    from dispense_tx_check_fails(2) [OF p v, of c]
    have "dispense_POST c pid body s
           = (Failure 500 (InsufficientStock (prod_name q) (prod_quantity q)
                             (quantityDispensed d)), s)" .
    with d show "\<exists>d\<in>set (dispensedItems body). \<exists>i q.
                   find_item (include_items s pid) d = Some (i, Some q)
                   \<and> prod_quantity q < quantityDispensed d
                   \<and> dispense_POST c pid body s
                       = (Failure 500 (InsufficientStock (prod_name q) (prod_quantity q)
                                         (quantityDispensed d)), s)
                   \<and> message (InsufficientStock (prod_name q) (prod_quantity q)
                                 (quantityDispensed d))
                       = ''Insufficient stock for '' @ prod_name q @ ''. Available: ''
                           @ show_int (prod_quantity q) @ '', Required: ''
                           @ show_int (quantityDispensed d)"
      by (intro bexI [of _ d] exI [of _ i] exI [of _ q]) simp_all
  qed
next
  show "\<forall>n a r. fst (dispense_tx c pid body s) = Inl (InsufficientStock n a r) \<longleftrightarrow>
               (\<exists>p pre d post i q.
                   find_prescription s pid = Some p \<and> rx_status p = Pending
                   \<and> dispensedItems body = pre @ d # post
                   \<and> verify_stock (include_items s pid) pre = None
                   \<and> find_item (include_items s pid) d = Some (i, Some q)
                   \<and> prod_quantity q < quantityDispensed d
                   \<and> n = prod_name q \<and> a = prod_quantity q \<and> r = quantityDispensed d)"
    unfolding dispense_tx_insufficient_iff verify_stock_insufficient_iff by blast
qed

theorem dispense_fails_iff_witness:
  "items_have_products ex_db
   \<and> precondition_fails ex_db ''rx1''
        (mk_request [entry ''iA'' ''pA'' 3, entry ''iB'' ''pB'' 2] 5 5)
   \<and> dispense_POST ex_clock ''rx1''
        (mk_request [entry ''iA'' ''pA'' 3, entry ''iB'' ''pB'' 2] 5 5) ex_db
       = (Failure 500 (InsufficientStock ''Ibuprofen'' 1 2), ex_db)
   \<and> message (InsufficientStock ''Ibuprofen'' 1 2)
       = ''Insufficient stock for Ibuprofen. Available: 1, Required: 2''"
proof -
  let ?req = "mk_request [entry ''iA'' ''pA'' 3, entry ''iB'' ''pB'' 2] 5 5"
  have fk: "items_have_products ex_db"
    by (simp add: items_have_products_def ex_defs)
  have pre: "precondition_fails ex_db ''rx1'' ?req"
    by (simp add: precondition_fails_def entry_fails_def ex_defs find_prescription_def
          include_items_def find_item_def)
  have live: "\<exists>p. find_prescription ex_db ''rx1'' = Some p \<and> rx_status p = Pending"
    by (simp add: ex_defs find_prescription_def)
  have known: "\<forall>d\<in>set (dispensedItems ?req). find_item (include_items ex_db ''rx1'') d \<noteq> None"
    by (simp add: ex_defs include_items_def find_item_def)
  have short: "\<exists>d\<in>set (dispensedItems ?req). entry_fails (include_items ex_db ''rx1'') d"
    by (simp add: entry_fails_def ex_defs include_items_def find_item_def)
  from dispense_fails_iff [OF fk, of ex_clock "''rx1''" ?req] live known short
  obtain d i q where
    d: "d \<in> set (dispensedItems ?req)"
      "find_item (include_items ex_db ''rx1'') d = Some (i, Some q)"
      "prod_quantity q < quantityDispensed d"
    and post: "dispense_POST ex_clock ''rx1'' ?req ex_db
                = (Failure 500 (InsufficientStock (prod_name q) (prod_quantity q)
                                  (quantityDispensed d)), ex_db)"
    by blast
  from d(1) have "d = entry ''iA'' ''pA'' 3 \<or> d = entry ''iB'' ''pB'' 2"
    by (simp add: mk_request_def)
  then have "prod_name q = ''Ibuprofen'' \<and> prod_quantity q = 1 \<and> quantityDispensed d = 2"
    using d(2,3) by (auto simp: ex_defs include_items_def find_item_def)
  with post have "dispense_POST ex_clock ''rx1'' ?req ex_db
       = (Failure 500 (InsufficientStock ''Ibuprofen'' 1 2), ex_db)"
    by simp
  moreover have "message (InsufficientStock ''Ibuprofen'' 1 2)
       = ''Insufficient stock for Ibuprofen. Available: 1, Required: 2''"
    by (simp add: show_int_def digit_char_def)
  ultimately show ?thesis using fk pre by simp
qed

section \<open>The effect of a committed dispensing\<close>

lemma find_prescription_id:
  "find_prescription s pid = Some p \<Longrightarrow> rx_id p = pid \<and> \<not> rx_isDeleted p \<and> p \<in> set (prescriptions s)"
  unfolding find_prescription_def by (auto dest: find_Some_list_ex)

lemma dispense_commit:
  assumes "transaction (dispense_tx c pid body) s = (Inr r, s')"
  shows "\<exists>p. find_prescription s pid = Some p \<and> rx_status p = Pending
          \<and> verify_stock (include_items s pid) (dispensedItems body) = None
          \<and> prescriptions s' =
              map (\<lambda>q. if rx_id q = pid
                        then set_dispensed (new_Date c) body
                               (length (dispensedItems body) = length (include_items s pid)) q
                        else q) (prescriptions s)
          \<and> drugDispensals s' = drugDispensals s @ [new_dispensal c p body]
          \<and> balanceTransactions s' =
              (if 0 < amountPaid body then balanceTransactions s @ [payment p body]
               else balanceTransactions s)
          \<and> map prod_id (products s') = map prod_id (products s)
          \<and> map pi_id (prescriptionItems s') = map pi_id (prescriptionItems s)
          \<and> students s' = students s \<and> drugs s' = drugs s
          \<and> r = \<lparr> res_dispensal = new_dispensal c p body,
                   res_prescription = p\<lparr> rx_status := new_status
                      (length (dispensedItems body) = length (include_items s pid)) \<rparr>,
                   res_student = include_student s p \<rparr>"
proof -
  from assms have tx: "dispense_tx c pid body s = (Inr r, s')"
    by (auto simp: transaction_def split: prod.splits sum.splits)
  from dispense_tx_success [OF tx] obtain p s2 rs where
    p: "find_prescription s pid = Some p" "rx_status p = Pending"
    and v: "verify_stock (include_items s pid) (dispensedItems body) = None"
    and u: "update_dispensed (new_Date c) (dispensedBy body) (dispensedItems body)
               (s\<lparr> drugDispensals := drugDispensals s @ [new_dispensal c p body] \<rparr>) = (Inr (), s2)"
    and rs: "update_rows (\<lambda>q. rx_id q = rx_id p)
               (set_dispensed (new_Date c) body
                  (length (dispensedItems body) = length (include_items s pid)))
               (prescriptions s2) = Some rs"
    and s': "s' = (if 0 < amountPaid body
                   then s2\<lparr> prescriptions := rs,
                            balanceTransactions := balanceTransactions s2 @ [payment p body] \<rparr>
                   else s2\<lparr> prescriptions := rs \<rparr>)"
    and r: "r = \<lparr> res_dispensal = new_dispensal c p body,
                   res_prescription = p\<lparr> rx_status := new_status
                      (length (dispensedItems body) = length (include_items s pid)) \<rparr>,
                   res_student = include_student s p \<rparr>"
    by blast
  from find_prescription_id [OF p(1)] have pid: "rx_id p = pid" by simp
  note t = update_dispensed_tables [OF u]
  from rs pid t have rs': "rs = map (\<lambda>q. if rx_id q = pid
                        then set_dispensed (new_Date c) body
                               (length (dispensedItems body) = length (include_items s pid)) q
                        else q) (prescriptions s)"
    by (auto simp: update_rows_def split: if_splits)
  show ?thesis
    using p v r s' rs' t by (intro exI [of _ p]) simp
qed

lemma dispense_POST_success:
  assumes "dispense_POST c pid body s = (Success r, s')"
  shows "\<exists>x st. transaction (dispense_tx c pid body) s = (Inr x, s')
           \<and> res_student x = Some st
           \<and> r = \<lparr> resp_dispensalNo = dd_dispensalNo (res_dispensal x),
                          resp_prescriptionNo = rx_prescriptionNo (res_prescription x),
                          resp_studentName = stu_firstName st @ '' '' @ stu_lastName st,
                          resp_totalAmount = totalAmount body,
                          resp_amountPaid = amountPaid body,
                          resp_change = amountPaid body - totalAmount body \<rparr>"
  using assms
  by (auto simp: dispense_POST_def split: prod.splits sum.splits option.splits)

lemma set_dispensed_keys:
  "rx_id (set_dispensed now body a q) = rx_id q"
  "rx_isDeleted (set_dispensed now body a q) = rx_isDeleted q"
  by (simp_all add: set_dispensed_def)

lemma find_prescription_after:
  assumes "find_prescription s pid = Some p"
    and "prescriptions s' = map (\<lambda>q. if rx_id q = pid then set_dispensed now body a q else q)
                               (prescriptions s)"
  shows "find_prescription s' pid = Some (set_dispensed now body a p)"
proof -
  have "find (\<lambda>p. rx_id p = pid \<and> \<not> rx_isDeleted p)
          (map (\<lambda>q. if rx_id q = pid then set_dispensed now body a q else q) (prescriptions s))
        = map_option (\<lambda>q. if rx_id q = pid then set_dispensed now body a q else q)
            (find (\<lambda>p. rx_id p = pid \<and> \<not> rx_isDeleted p) (prescriptions s))"
    by (rule find_map_key) (simp add: set_dispensed_keys)
  with assms find_prescription_id [OF assms(1)] show ?thesis
    by (simp add: find_prescription_def)
qed

lemma verified_ids_subset:
  assumes "verify_stock items ds = None"
  shows "set (map itemId ds) \<subseteq> set (map (\<lambda>x. pi_id (fst x)) items)"
proof
  fix k assume "k \<in> set (map itemId ds)"
  then obtain d where d: "d \<in> set ds" "k = itemId d" by auto
  with assms obtain i p where "find_item items d = Some (i, Some p)"
    by (auto simp: verify_stock_None_iff)
  then have "(i, Some p) \<in> set items \<and> pi_id i = itemId d"
    unfolding find_item_def by (auto dest: find_Some_list_ex)
  with d(2) show "k \<in> set (map (\<lambda>x. pi_id (fst x)) items)" by force
qed

lemma distinct_length_eq_iff:
  assumes "distinct xs" "distinct ys" "set xs \<subseteq> set ys"
  shows "length xs = length ys \<longleftrightarrow> set xs = set ys"
proof
  assume "length xs = length ys"
  with assms have "card (set xs) = card (set ys)" by (simp add: distinct_card)
  with assms(3) show "set xs = set ys" by (simp add: card_subset_eq)
next
  assume "set xs = set ys"
  then have "card (set xs) = card (set ys)" by simp
  with assms show "length xs = length ys" by (simp add: distinct_card)
qed

lemma no_regress_refl: "list_all2 no_regress rows rows"
  by (simp add: list_all2_same no_regress_def)

lemma no_regress_trans:
  "list_all2 no_regress xs ys \<Longrightarrow> list_all2 no_regress ys zs \<Longrightarrow> list_all2 no_regress xs zs"
  using list_all2_trans [of no_regress no_regress no_regress xs ys zs]
  by (auto simp: no_regress_def)

lemma stock_PATCH_prescriptions: "prescriptions (snd (stock_PATCH now pid q s)) = prescriptions s"
  by (auto simp: stock_PATCH_def stock_PATCH_tx_def transaction_def
      split: option.splits prod.splits sum.splits)

lemma dispense_POST_no_regress:
  "list_all2 no_regress (prescriptions s) (prescriptions (snd (dispense_POST c pid body s)))"
proof (cases "transaction (dispense_tx c pid body) s")
  case (Pair x s')
  show ?thesis
  proof (cases x)
    case (Inl e)
    with Pair have "s' = s" by (auto simp: transaction_def split: prod.splits sum.splits)
    with Pair Inl show ?thesis by (simp add: dispense_POST_def no_regress_refl)
  next
    case (Inr r)
    with Pair have "transaction (dispense_tx c pid body) s = (Inr r, s')" by simp
    from dispense_commit [OF this] have
      "prescriptions s' = map (\<lambda>q. if rx_id q = pid
                        then set_dispensed (new_Date c) body
                               (length (dispensedItems body) = length (include_items s pid)) q
                        else q) (prescriptions s)" by blast
    then have "list_all2 no_regress (prescriptions s) (prescriptions s')"
      by (simp add: list_all2_map2 list_all2_same no_regress_def set_dispensed_def new_status_def)
    moreover from Pair Inr have "snd (dispense_POST c pid body s) = s'"
      by (simp add: dispense_POST_def split: option.splits)
    ultimately show ?thesis by simp
  qed
qed

lemma run_no_regress: "list_all2 no_regress (prescriptions s) (prescriptions (run ops s))"
proof (induction ops arbitrary: s)
  case Nil
  show ?case by (simp add: no_regress_refl)
next
  case (Cons op ops)
  have "list_all2 no_regress (prescriptions s) (prescriptions (apply_operation op s))"
    by (cases op) (simp_all add: dispense_POST_no_regress stock_PATCH_prescriptions no_regress_refl)
  from no_regress_trans [OF this Cons.IH] show ?case by simp
qed


text \<open>
  What a committed dispensing does to the prescription: the status becomes \<open>dispensed\<close>,
  with \<open>dispensedAt\<close> and \<open>dispensedBy\<close> set, when the request has as many entries as
  the prescription has items, and \<open>partially_dispensed\<close>, with the two fields as they
  were, otherwise.  Every requested item is an item of the prescription, so when neither
  the request nor the prescription lists an item twice, the numbers are equal exactly
  when the dispensed items are all the items of the prescription.  In no run of
  dispensing requests and stock adjustments does the status of a prescription go back to
  \<open>pending\<close>.
\<close>

lemma dispense_status_transition:
  assumes "dispense_POST c pid body s = (Success r, s')"
  shows "(\<exists>p p'. find_prescription s pid = Some p \<and> rx_status p = Pending
           \<and> find_prescription s' pid = Some p'
           \<and> (length (dispensedItems body) = length (include_items s pid) \<longrightarrow>
                rx_status p' = Dispensed \<and> rx_dispensedAt p' = Some (new_Date c)
                \<and> rx_dispensedBy p' = Some (dispensedBy body))
           \<and> (length (dispensedItems body) \<noteq> length (include_items s pid) \<longrightarrow>
                rx_status p' = PartiallyDispensed \<and> rx_dispensedAt p' = rx_dispensedAt p
                \<and> rx_dispensedBy p' = rx_dispensedBy p)
           \<and> set (requested_ids body) \<subseteq> set (item_ids s pid)
           \<and> (distinct (requested_ids body) \<and> distinct (item_ids s pid) \<longrightarrow>
                (length (dispensedItems body) = length (include_items s pid)
                 \<longleftrightarrow> set (requested_ids body) = set (item_ids s pid))))
         \<and> list_all2 no_regress (prescriptions t) (prescriptions (run ops t))"
proof -
  from dispense_POST_success [OF assms] obtain x where
    "transaction (dispense_tx c pid body) s = (Inr x, s')" by blast
  from dispense_commit [OF this] obtain p where
    p: "find_prescription s pid = Some p" "rx_status p = Pending"
    and v: "verify_stock (include_items s pid) (dispensedItems body) = None"
    and rows: "prescriptions s' =
              map (\<lambda>q. if rx_id q = pid
                        then set_dispensed (new_Date c) body
                               (length (dispensedItems body) = length (include_items s pid)) q
                        else q) (prescriptions s)"
    by blast
  let ?all = "length (dispensedItems body) = length (include_items s pid)"
  let ?p' = "set_dispensed (new_Date c) body ?all p"
  have after: "find_prescription s' pid = Some ?p'"
    by (rule find_prescription_after [OF p(1) rows])
  have sub: "set (requested_ids body) \<subseteq> set (item_ids s pid)"
    using verified_ids_subset [OF v] by (simp add: requested_ids_def item_ids_def)
  have full: "?all \<longrightarrow> rx_status ?p' = Dispensed \<and> rx_dispensedAt ?p' = Some (new_Date c)
                \<and> rx_dispensedBy ?p' = Some (dispensedBy body)"
    by (simp add: set_dispensed_def new_status_def)
  have part: "\<not> ?all \<longrightarrow> rx_status ?p' = PartiallyDispensed
                \<and> rx_dispensedAt ?p' = rx_dispensedAt p \<and> rx_dispensedBy ?p' = rx_dispensedBy p"
    by (simp add: set_dispensed_def new_status_def)
  have sets: "distinct (requested_ids body) \<and> distinct (item_ids s pid) \<longrightarrow>
                (?all \<longleftrightarrow> set (requested_ids body) = set (item_ids s pid))"
  proof
    assume d: "distinct (requested_ids body) \<and> distinct (item_ids s pid)"
    have "length (requested_ids body) = length (item_ids s pid)
          \<longleftrightarrow> set (requested_ids body) = set (item_ids s pid)"
      using d sub by (intro distinct_length_eq_iff) simp_all
    then show "?all \<longleftrightarrow> set (requested_ids body) = set (item_ids s pid)"
      by (simp add: requested_ids_def item_ids_def)
  qed
  from p after full part sub sets
  have "\<exists>p p'. find_prescription s pid = Some p \<and> rx_status p = Pending
           \<and> find_prescription s' pid = Some p'
           \<and> (?all \<longrightarrow>
                rx_status p' = Dispensed \<and> rx_dispensedAt p' = Some (new_Date c)
                \<and> rx_dispensedBy p' = Some (dispensedBy body))
           \<and> (\<not> ?all \<longrightarrow>
                rx_status p' = PartiallyDispensed \<and> rx_dispensedAt p' = rx_dispensedAt p
                \<and> rx_dispensedBy p' = rx_dispensedBy p)
           \<and> set (requested_ids body) \<subseteq> set (item_ids s pid)
           \<and> (distinct (requested_ids body) \<and> distinct (item_ids s pid) \<longrightarrow>
                (?all \<longleftrightarrow> set (requested_ids body) = set (item_ids s pid)))"
    by blast
  then show ?thesis using run_no_regress [of t ops] by simp
qed

lemma dispense_status_transition_example:
  "map rx_status (prescriptions (snd (dispense_POST ex_clock ''rx1''
       (mk_request [entry ''iA'' ''pA'' 3] 3 5) ex_db))) = [PartiallyDispensed]
   \<and> map rx_status (prescriptions (snd (dispense_POST ex_clock ''rx1''
       (mk_request [entry ''iA'' ''pA'' 3, entry ''iB'' ''pB'' 1] 4 5) ex_db))) = [Dispensed]"
proof -
  let ?part = "mk_request [entry ''iA'' ''pA'' 3] 3 5"
  let ?full = "mk_request [entry ''iA'' ''pA'' 3, entry ''iB'' ''pB'' 1] 4 5"
  obtain r1 s1 where 1: "dispense_POST ex_clock ''rx1'' ?part ex_db = (Success r1, s1)"
    by (simp add: ex_defs tx_defs)
  obtain r2 s2 where 2: "dispense_POST ex_clock ''rx1'' ?full ex_db = (Success r2, s2)"
    by (simp add: ex_defs tx_defs)
  have n1: "length (dispensedItems ?part) \<noteq> length (include_items ex_db ''rx1'')"
    by (simp add: ex_defs include_items_def)
  have n2: "length (dispensedItems ?full) = length (include_items ex_db ''rx1'')"
    by (simp add: ex_defs include_items_def)
  from dispense_status_transition [OF 1] n1
  obtain p1 where p1: "find_prescription s1 ''rx1'' = Some p1" "rx_status p1 = PartiallyDispensed"
    by blast
  from dispense_status_transition [OF 2] n2
  obtain p2 where p2: "find_prescription s2 ''rx1'' = Some p2" "rx_status p2 = Dispensed"
    by blast
  have l1: "map rx_id (prescriptions s1) = [''rx1''] \<and> map rx_isDeleted (prescriptions s1) = [False]"
    using 1 [symmetric] by (simp add: ex_defs tx_defs)
  have l2: "map rx_id (prescriptions s2) = [''rx1''] \<and> map rx_isDeleted (prescriptions s2) = [False]"
    using 2 [symmetric] by (simp add: ex_defs tx_defs)
  from l1 p1 have "map rx_status (prescriptions s1) = [PartiallyDispensed]"
    by (cases "prescriptions s1") (auto simp: find_prescription_def split: if_splits)
  moreover from l2 p2 have "map rx_status (prescriptions s2) = [Dispensed]"
    by (cases "prescriptions s2") (auto simp: find_prescription_def split: if_splits)
  ultimately show ?thesis using 1 2 by simp
qed

text \<open>
  C4 asks that the status become \<open>dispensed\<close> when all items of the prescription were
  dispensed and \<open>partially_dispensed\<close> when a strict subset was.  The handler decides
  \<open>allItemsDispensed\<close> by comparing the number of entries of the request with the number
  of items of the prescription.  A request that lists item \<open>iA\<close> of the two-item
  prescription \<open>rx1\<close> twice dispenses \<open>iA\<close> alone and has two entries: the status
  becomes \<open>dispensed\<close> and \<open>dispensedAt\<close> and \<open>dispensedBy\<close> are set, item \<open>iB\<close> is
  not dispensed, and a later request for \<open>iB\<close> is refused because the prescription is
  not pending any more.
\<close>

theorem dispense_duplicate_entry_marks_dispensed:
  "requested_ids (mk_request [entry ''iA'' ''pA'' 1, entry ''iA'' ''pA'' 1] 2 2) = [''iA'', ''iA'']
   \<and> item_ids ex_db ''rx1'' = [''iA'', ''iB'']
   \<and> map rx_status (prescriptions (snd (dispense_POST ex_clock ''rx1''
       (mk_request [entry ''iA'' ''pA'' 1, entry ''iA'' ''pA'' 1] 2 2) ex_db))) = [Dispensed]
   \<and> map rx_dispensedAt (prescriptions (snd (dispense_POST ex_clock ''rx1''
       (mk_request [entry ''iA'' ''pA'' 1, entry ''iA'' ''pA'' 1] 2 2) ex_db)))
       = [Some (new_Date ex_clock)]
   \<and> map rx_dispensedBy (prescriptions (snd (dispense_POST ex_clock ''rx1''
       (mk_request [entry ''iA'' ''pA'' 1, entry ''iA'' ''pA'' 1] 2 2) ex_db))) = [Some ''u1'']
   \<and> map pi_isDispensed (prescriptionItems (snd (dispense_POST ex_clock ''rx1''
       (mk_request [entry ''iA'' ''pA'' 1, entry ''iA'' ''pA'' 1] 2 2) ex_db))) = [True, False]
   \<and> fst (dispense_POST ex_clock ''rx1'' (mk_request [entry ''iB'' ''pB'' 1] 1 1)
        (snd (dispense_POST ex_clock ''rx1''
           (mk_request [entry ''iA'' ''pA'' 1, entry ''iA'' ''pA'' 1] 2 2) ex_db)))
       = Failure 500 NotPending"
  by (simp add: ex_defs tx_defs requested_ids_def item_ids_def)

lemma include_student_name:
  "include_student s p = Some st \<Longrightarrow> st \<in> set (students s) \<and> stu_id st = rx_studentId p"
  unfolding include_student_def by (auto dest: find_Some_list_ex)

section \<open>The response of a successful dispensing\<close>

text \<open>
  C7, as stated, fails: the change in the response is the plain difference of the amount
  paid and the total amount, and it is negative when less than the total was paid.
\<close>

theorem dispense_response_counterexample:
  "fst (dispense_POST ex_clock ''rx1'' (mk_request [entry ''iA'' ''pA'' 3] 10 0) ex_db)
     = Success \<lparr> resp_dispensalNo = ''DISP-2025-600123'',
                 resp_prescriptionNo = ''RX-001'',
                 resp_studentName = ''Ada Obi'',
                 resp_totalAmount = 10,
                 resp_amountPaid = 0,
                 resp_change = - 10 \<rparr>
   \<and> spec_change 0 10 = 0"
  by (simp add: ex_defs tx_defs spec_change_def generateDispensalNo_def ex_clock_def
        slice_last_def digit_char_def)

text \<open>
  C7, amended: for every successful dispensing, the response carries the receipt number
  of the dispensal that was created, the number of the prescription, the name of the
  student, the total amount and the amount paid of the request, and a change equal to
  the amount paid minus the total amount, which is negative exactly when the amount paid
  is less than the total amount.  The new status of the prescription is not a field of
  the response.
\<close>

theorem dispense_response:
  assumes "dispense_POST c pid body s = (Success r, s')"
  shows "\<exists>p st. find_prescription s pid = Some p
          \<and> include_student s p = Some st
          \<and> drugDispensals s' = drugDispensals s @ [new_dispensal c p body]
          \<and> resp_dispensalNo r = dd_dispensalNo (new_dispensal c p body)
          \<and> resp_dispensalNo r = generateDispensalNo c
          \<and> resp_prescriptionNo r = rx_prescriptionNo p
          \<and> resp_studentName r = stu_firstName st @ '' '' @ stu_lastName st
          \<and> resp_totalAmount r = totalAmount body
          \<and> resp_amountPaid r = amountPaid body
          \<and> resp_change r = amountPaid body - totalAmount body
          \<and> (resp_change r < 0 \<longleftrightarrow> amountPaid body < totalAmount body)"
proof -
  from dispense_POST_success [OF assms] obtain x st where
    tx: "transaction (dispense_tx c pid body) s = (Inr x, s')"
    and st: "res_student x = Some st"
    and r: "r = \<lparr> resp_dispensalNo = dd_dispensalNo (res_dispensal x),
                          resp_prescriptionNo = rx_prescriptionNo (res_prescription x),
                          resp_studentName = stu_firstName st @ '' '' @ stu_lastName st,
                          resp_totalAmount = totalAmount body,
                          resp_amountPaid = amountPaid body,
                          resp_change = amountPaid body - totalAmount body \<rparr>"
    by blast
  from dispense_commit [OF tx] obtain p where
    p: "find_prescription s pid = Some p"
    and dd: "drugDispensals s' = drugDispensals s @ [new_dispensal c p body]"
    and x: "x = \<lparr> res_dispensal = new_dispensal c p body,
                   res_prescription = p\<lparr> rx_status := new_status
                      (length (dispensedItems body) = length (include_items s pid)) \<rparr>,
                   res_student = include_student s p \<rparr>"
    by blast
  from st x have "include_student s p = Some st" by simp
  with p dd r x show ?thesis
    by (intro exI [of _ p] exI [of _ st]) (simp add: new_dispensal_def)
qed

theorem dispense_response_witness:
  "fst (dispense_POST ex_clock ''rx1'' (mk_request [entry ''iA'' ''pA'' 3] 3 5) ex_db)
     = Success \<lparr> resp_dispensalNo = generateDispensalNo ex_clock,
                 resp_prescriptionNo = ''RX-001'',
                 resp_studentName = ''Ada Obi'',
                 resp_totalAmount = 3,
                 resp_amountPaid = 5,
                 resp_change = 2 \<rparr>"
proof -
  let ?req = "mk_request [entry ''iA'' ''pA'' 3] 3 5"
  obtain r s' where ok: "dispense_POST ex_clock ''rx1'' ?req ex_db = (Success r, s')"
    by (simp add: ex_defs tx_defs)
  from dispense_response [OF ok] obtain p st where
    p: "find_prescription ex_db ''rx1'' = Some p"
    and st: "include_student ex_db p = Some st"
    and r: "resp_dispensalNo r = generateDispensalNo ex_clock"
      "resp_prescriptionNo r = rx_prescriptionNo p"
      "resp_studentName r = stu_firstName st @ '' '' @ stu_lastName st"
      "resp_totalAmount r = totalAmount ?req"
      "resp_amountPaid r = amountPaid ?req"
      "resp_change r = amountPaid ?req - totalAmount ?req"
    by blast
  from p have p': "p = mk_prescription ''rx1'' ''RX-001'' Normal 100"
    by (simp add: ex_db_def find_prescription_def mk_prescription_def)
  from st p' have st': "st = ex_student"
    by (simp add: ex_db_def include_student_def mk_prescription_def ex_student_def)
  have "r = \<lparr> resp_dispensalNo = generateDispensalNo ex_clock,
                 resp_prescriptionNo = ''RX-001'',
                 resp_studentName = ''Ada Obi'',
                 resp_totalAmount = 3,
                 resp_amountPaid = 5,
                 resp_change = 2 \<rparr>"
    using r p' st' by (cases r) (simp add: mk_prescription_def ex_student_def mk_request_def)
  with ok show ?thesis by simp
qed

section \<open>Quantities on hand\<close>

text \<open>
  C3 asks that the quantity of a product never becomes negative, a dispensing that would
  make it so being rejected.  The stock check compares every requested entry with the
  quantity that was loaded before the loop, one entry at a time.  Prescription \<open>rx2\<close>
  has two items of 3 units each of product \<open>pA\<close>, of which 5 are in stock: both entries
  pass the check, the dispensing succeeds, and the quantity of \<open>pA\<close> is \<open>-1\<close>
  afterwards.
\<close>

theorem dispense_same_product_twice_negative_stock:
  "map prod_quantity (products ex_db_same_product) = [5]
   \<and> fst (dispense_POST ex_clock ''rx2''
        (mk_request [entry ''iC'' ''pA'' 3, entry ''iD'' ''pA'' 3] 6 6) ex_db_same_product)
      = Success \<lparr> resp_dispensalNo = generateDispensalNo ex_clock,
                 resp_prescriptionNo = ''RX-002'',
                 resp_studentName = ''Ada Obi'',
                 resp_totalAmount = 6,
                 resp_amountPaid = 6,
                 resp_change = 0 \<rparr>
   \<and> map prod_quantity (products (snd (dispense_POST ex_clock ''rx2''
        (mk_request [entry ''iC'' ''pA'' 3, entry ''iD'' ''pA'' 3] 6 6) ex_db_same_product)))
      = [- 1]"
  by (simp add: ex_db_same_product_def ex_defs tx_defs)

text \<open>The inventory after the loop of steps 4 and 5.\<close>

lemma requested_of_Cons:
  "requested_of (d # ds) k =
     (if productId d = k then quantityDispensed d + requested_of ds k else requested_of ds k)"
  by (simp add: requested_of_def)

lemma update_dispensed_products:
  "update_dispensed now by ds s = (Inr (), s') \<Longrightarrow>
     products s' =
       map (\<lambda>p. p\<lparr> prod_quantity := prod_quantity p - requested_of ds (prod_id p) \<rparr>) (products s)"
proof (induction ds arbitrary: s)
  case Nil
  then show ?case by (simp add: requested_of_def)
next
  case (Cons d ds)
  from Cons.prems obtain is' ps' where
    is': "update_rows (\<lambda>i. pi_id i = itemId d) (mark_dispensed now by d) (prescriptionItems s) = Some is'"
    and ps': "update_rows (\<lambda>p. prod_id p = productId d) (decrement d) (products s) = Some ps'"
    and rest: "update_dispensed now by ds (s\<lparr> prescriptionItems := is', products := ps' \<rparr>) = (Inr (), s')"
    by (auto split: option.splits)
  from ps' have ps: "ps' = map (\<lambda>p. if prod_id p = productId d then decrement d p else p) (products s)"
    by (simp add: update_rows_def split: if_splits)
  from Cons.IH [OF rest]
  have "products s' =
       map (\<lambda>p. p\<lparr> prod_quantity := prod_quantity p - requested_of ds (prod_id p) \<rparr>) ps'"
    by simp
  also have "\<dots> = map (\<lambda>p. p\<lparr> prod_quantity := prod_quantity p - requested_of (d # ds) (prod_id p) \<rparr>)
                     (products s)"
    unfolding ps map_map
    by (rule map_cong) (simp_all add: requested_of_Cons decrement_def)
  finally show ?case .
qed

lemma filter_key_distinct:
  assumes "distinct (map f xs)" "x \<in> set xs"
  shows "filter (\<lambda>y. f y = f x) xs = [x]"
  using assms
proof (induction xs)
  case Nil
  then show ?case by simp
next
  case (Cons a xs)
  show ?case
  proof (cases "a = x")
    case True
    with Cons.prems(1) have "f x \<notin> f ` set xs" by simp
    then have "filter (\<lambda>y. f y = f x) xs = []"
      unfolding filter_empty_conv by (metis imageI)
    with True show ?thesis by simp
  next
    case False
    with Cons.prems have "x \<in> set xs" "f a \<noteq> f x" by auto
    with Cons show ?thesis by simp
  qed
qed

lemma requested_of_distinct:
  assumes "distinct (map productId ds)" "d \<in> set ds"
  shows "requested_of ds (productId d) = quantityDispensed d"
  using filter_key_distinct [OF assms] by (simp add: requested_of_def)

lemma requested_of_none:
  assumes "\<forall>d\<in>set ds. productId d \<noteq> k"
  shows "requested_of ds k = 0"
proof -
  from assms have "filter (\<lambda>d. productId d = k) ds = []" by (auto simp: filter_empty_conv)
  then show ?thesis by (simp add: requested_of_def)
qed

lemma distinct_key_eq:
  assumes "distinct (map f xs)" "x \<in> set xs" "y \<in> set xs" "f x = f y"
  shows "x = y"
  using assms by (meson distinct_map inj_onD)

text \<open>
  The check does keep the quantities non-negative for the requests of the dispensing page:
  product identifiers are keys, no two entries draw on the same product, and every entry
  names the product of its item.
\<close>

lemma dispense_keeps_nonnegative:
  assumes run: "dispense_POST c pid body s = (r, s')"
    and nonneg: "\<forall>p\<in>set (products s). 0 \<le> prod_quantity p"
    and keys: "distinct (map prod_id (products s))"
    and once: "distinct (map productId (dispensedItems body))"
    and own: "\<forall>d\<in>set (dispensedItems body). names_own_product s pid d"
  shows "\<forall>p\<in>set (products s'). 0 \<le> prod_quantity p"
proof (cases "transaction (dispense_tx c pid body) s")
  case (Pair x t)
  show ?thesis
  proof (cases x)
    case (Inl e)
    with Pair have "t = s" by (auto simp: transaction_def split: prod.splits sum.splits)
    with Pair Inl run have "s' = s" by (simp add: dispense_POST_def)
    with nonneg show ?thesis by simp
  next
    case (Inr y)
    with Pair run have s': "s' = t" by (auto simp: dispense_POST_def split: option.splits)
    from Pair Inr have tx: "dispense_tx c pid body s = (Inr y, t)"
      by (auto simp: transaction_def split: prod.splits sum.splits)
    from dispense_tx_success [OF tx] obtain p s2 rs where
      v: "verify_stock (include_items s pid) (dispensedItems body) = None"
      and u: "update_dispensed (new_Date c) (dispensedBy body) (dispensedItems body)
               (s\<lparr> drugDispensals := drugDispensals s @ [new_dispensal c p body] \<rparr>) = (Inr (), s2)"
      and t: "t = (if 0 < amountPaid body
                   then s2\<lparr> prescriptions := rs,
                            balanceTransactions := balanceTransactions s2 @ [payment p body] \<rparr>
                   else s2\<lparr> prescriptions := rs \<rparr>)"
      by blast
    from t have "products t = products s2" by simp
    with update_dispensed_products [OF u] s'
    have prods: "products s' =
       map (\<lambda>p. p\<lparr> prod_quantity := prod_quantity p
                      - requested_of (dispensedItems body) (prod_id p) \<rparr>) (products s)"
      by simp
    have "requested_of (dispensedItems body) (prod_id p0) \<le> prod_quantity p0"
      if p0: "p0 \<in> set (products s)" for p0
    proof (cases "\<exists>d\<in>set (dispensedItems body). productId d = prod_id p0")
      case False
      then have "requested_of (dispensedItems body) (prod_id p0) = 0"
        by (intro requested_of_none) simp
      with nonneg p0 show ?thesis by simp
    next
      case True
      then obtain d where d: "d \<in> set (dispensedItems body)" "productId d = prod_id p0"
        by blast
      from v d(1) obtain i q where
        f: "find_item (include_items s pid) d = Some (i, Some q)"
        and enough: "\<not> prod_quantity q < quantityDispensed d"
        by (auto simp: verify_stock_None_iff)
      from find_item_include [OF f]
      have "find (\<lambda>p. prod_id p = pi_productId i) (products s) = Some q" by simp
      then have q: "q \<in> set (products s)" "prod_id q = pi_productId i"
        by (auto dest: find_Some_list_ex)
      from own d(1) f have "productId d = pi_productId i"
        by (auto simp: names_own_product_def)
      with q d(2) have "prod_id q = prod_id p0" by simp
      from distinct_key_eq [OF keys q(1) p0 this] have "q = p0" .
      with enough requested_of_distinct [OF once d(1)] d(2) show ?thesis by simp
    qed
    with prods show ?thesis by auto
  qed
qed

text \<open>An inventory adjustment stores the quantity it is given.\<close>

lemma stock_PATCH_products:
  "products (snd (stock_PATCH now pid q s)) =
     map (\<lambda>p. if prod_id p = pid then p\<lparr> prod_quantity := q, prod_updatedAt := now \<rparr> else p)
       (products s)"
proof (cases "list_ex (\<lambda>p. prod_id p = pid) (products s)")
  case True
  then obtain x where "find (\<lambda>p. prod_id p = pid) (products s) = Some x"
    by (cases "find (\<lambda>p. prod_id p = pid) (products s)") (simp_all add: find_None_list_ex)
  with True show ?thesis
    by (simp add: stock_PATCH_def stock_PATCH_tx_def transaction_def update_rows_def)
next
  case False
  then have none: "find (\<lambda>p. prod_id p = pid) (products s) = None"
    by (simp add: find_None_list_ex)
  from False have "map (\<lambda>p. if prod_id p = pid then p\<lparr> prod_quantity := q, prod_updatedAt := now \<rparr> else p)
       (products s) = products s"
    by (intro map_idI) (auto simp: list_ex_iff)
  with none show ?thesis
    by (simp add: stock_PATCH_def stock_PATCH_tx_def transaction_def)
qed

lemma stock_PATCH_nonnegative:
  assumes "0 \<le> q" "\<forall>p\<in>set (products s). 0 \<le> prod_quantity p"
  shows "\<forall>p\<in>set (products (snd (stock_PATCH now pid q s))). 0 \<le> prod_quantity p"
  using assms by (auto simp: stock_PATCH_products)

text \<open>
  A failure after the checks does leave writes behind in the body; the transaction undoes them.
\<close>

lemma rollback_is_needed:
  "snd (dispense_tx ex_clock ''rx1'' (mk_request [entry ''iA'' ''pX'' 3] 3 3) ex_db) \<noteq> ex_db
   \<and> snd (dispense_POST ex_clock ''rx1'' (mk_request [entry ''iA'' ''pX'' 3] 3 3) ex_db) = ex_db"
  by (simp add: ex_defs tx_defs)

section \<open>Properties of the list of pending prescriptions\<close>

lemma map_result_all2:
  "map_result f xs = Inr ys \<Longrightarrow> list_all2 (\<lambda>x y. f x = Inr y) xs ys"
proof (induction xs arbitrary: ys)
  case Nil
  then show ?case by simp
next
  case (Cons x xs)
  then show ?case by (auto split: sum.splits)
qed

lemma list_all2_in_set:
  "list_all2 R xs ys \<Longrightarrow> y \<in> set ys \<Longrightarrow> \<exists>x\<in>set xs. R x y"
  by (induction rule: list_all2_induct) auto

lemma sorted_wrt_all2:
  assumes "list_all2 R xs ys" "sorted_wrt P xs"
    and "\<And>x x' y y'. R x y \<Longrightarrow> R x' y' \<Longrightarrow> P x x' \<Longrightarrow> Q y y'"
  shows "sorted_wrt Q ys"
  using assms(1,2)
proof (induction rule: list_all2_induct)
  case Nil
  then show ?case by simp
next
  case (Cons x xs y ys)
  have "Q y y'" if "y' \<in> set ys" for y'
  proof -
    from list_all2_in_set [OF Cons.hyps(2) that] obtain x' where "x' \<in> set xs" "R x' y'"
      by blast
    with Cons.prems Cons.hyps(1) assms(3) show ?thesis by auto
  qed
  with Cons show ?case by simp
qed

lemma priority_rank_inj: "priority_rank a = priority_rank b \<longleftrightarrow> a = b"
  by (cases a; cases b) (simp_all add: priority_rank_def)

lemma order_pending_sorted: "sorted_wrt row_order (order_pending rows)"
proof -
  let ?key = "\<lambda>p. (priority_rank (rx_priority p), rx_createdAt p)"
  have "sorted (map ?key (sort_key ?key rows))" by (rule sorted_sort_key)
  then have "sorted_wrt (\<lambda>a b. ?key a \<le> ?key b) (sort_key ?key rows)"
    by (simp only: sorted_map)
  then show ?thesis
    unfolding order_pending_def
    by (rule sorted_wrt_mono_rel [rotated])
       (auto simp: row_order_def priority_rank_inj)
qed

lemma skip_take_sorted:
  assumes "sorted_wrt P rows" "skip_take offset limit rows = Inr out"
  shows "sorted_wrt P out"
proof (cases "0 \<le> limit")
  case True
  with assms show ?thesis by (auto simp: skip_take_def split: if_splits)
next
  case False
  with assms(2) have out: "out = rev (take (nat (- limit)) (drop (nat offset) (rev rows)))"
    by (auto simp: skip_take_def split: if_splits)
  from assms(1) have "sorted_wrt (\<lambda>x y. P y x) (rev rows)"
    by (simp add: sorted_wrt_rev)
  then have "sorted_wrt (\<lambda>x y. P y x) (take (nat (- limit)) (drop (nat offset) (rev rows)))"
    by simp
  then show ?thesis unfolding out by (simp add: sorted_wrt_rev)
qed

lemma skip_take_subset:
  assumes "skip_take offset limit rows = Inr out"
  shows "set out \<subseteq> set rows"
proof -
  have "set (take n (drop k xs)) \<subseteq> set xs" for n k and xs :: "'a list"
    by (meson order_trans set_take_subset set_drop_subset)
  from this [of "nat limit" "nat offset" rows] this [of "nat (- limit)" "nat offset" "rev rows"]
    assms show ?thesis
    by (auto simp: skip_take_def split: if_splits)
qed

lemma format_prescription_fields:
  assumes "format_prescription s p = Inr fp"
  shows "fp_id fp = rx_id p \<and> fp_priority fp = rx_priority p \<and> fp_createdAt fp = rx_createdAt p
         \<and> map_result format_item (include_items s (rx_id p)) = Inr (fp_items fp)
         \<and> (\<exists>shorts. map_result short_of_stock (include_items s (rx_id p)) = Inr shorts
              \<and> fp_hasStockIssues fp = list_ex (\<lambda>b. b) shorts)"
  using assms
  by (auto simp: format_prescription_def split: option.splits sum.splits)

lemma pending_GET_success:
  assumes "pending_GET s pr search page limit = Success resp"
  shows "\<exists>rows. skip_take ((page - 1) * limit) limit
                  (order_pending (filter (pending_where s pr search) (prescriptions s))) = Inr rows
           \<and> map_result (format_prescription s) rows = Inr (pr_prescriptions resp)
           \<and> pr_total resp = int (length (filter (pending_where s pr search) (prescriptions s)))"
  using assms
  by (auto simp: pending_GET_def Let_def split: sum.splits)

text \<open>
  C6: whenever the list of pending prescriptions is returned, it is in the order of the
  queue: ascending in the priority, where emergency comes before urgent and urgent before
  normal, and ascending in the creation time among prescriptions of the same priority.
\<close>

theorem pending_list_ordered:
  assumes "pending_GET s pr search page limit = Success resp"
  shows "sorted_wrt queue_order (pr_prescriptions resp)
         \<and> priority_rank Emergency < priority_rank Urgent
         \<and> priority_rank Urgent < priority_rank Normal"
proof -
  from pending_GET_success [OF assms] obtain rows where
    rows: "skip_take ((page - 1) * limit) limit
             (order_pending (filter (pending_where s pr search) (prescriptions s))) = Inr rows"
    and fps: "map_result (format_prescription s) rows = Inr (pr_prescriptions resp)"
    by blast
  have "sorted_wrt row_order rows"
    by (rule skip_take_sorted [OF order_pending_sorted rows])
  with map_result_all2 [OF fps] have "sorted_wrt queue_order (pr_prescriptions resp)"
    by (rule sorted_wrt_all2)
       (auto simp: row_order_def queue_order_def dest!: format_prescription_fields)
  then show ?thesis by (simp add: priority_rank_def)
qed

lemmas queue_defs = pending_GET_def pending_where_def order_pending_def skip_take_def
  format_prescription_def format_item_def short_of_stock_def priority_count_def count_rows_def
  priority_rank_def include_items_def include_student_def Let_def

theorem pending_list_ordered_witness:
  "\<exists>resp. pending_GET ex_queue_db None None 1 10 = Success resp
      \<and> map fp_id (pr_prescriptions resp) = [''rx3'', ''rx4'', ''rx1'']
      \<and> map fp_priority (pr_prescriptions resp) = [Emergency, Urgent, Normal]
      \<and> sorted_wrt queue_order (pr_prescriptions resp)"
proof -
  obtain resp where ok: "pending_GET ex_queue_db None None 1 10 = Success resp"
    by (simp add: queue_defs ex_queue_db_def ex_defs)
  from pending_list_ordered [OF ok] have "sorted_wrt queue_order (pr_prescriptions resp)"
    by simp
  moreover have "map fp_id (pr_prescriptions resp) = [''rx3'', ''rx4'', ''rx1'']
      \<and> map fp_priority (pr_prescriptions resp) = [Emergency, Urgent, Normal]"
    using ok [symmetric] by (simp add: queue_defs ex_queue_db_def ex_defs)
  ultimately show ?thesis using ok by (intro exI [of _ resp]) simp
qed

lemma list_all2_function:
  "list_all2 (\<lambda>x y. y = f x) xs ys \<Longrightarrow> ys = map f xs"
  by (induction rule: list_all2_induct) auto

lemma list_all2_compose:
  "list_all2 R xs ys \<Longrightarrow> list_all2 S xs zs \<Longrightarrow> list_all2 (\<lambda>y z. \<exists>x. R x y \<and> S x z) ys zs"
proof (induction xs arbitrary: ys zs)
  case Nil
  then show ?case by simp
next
  case (Cons x xs)
  then show ?case by (auto simp: list_all2_Cons1)
qed

lemma format_item_fields:
  assumes "format_item x = Inr it"
  shows "\<exists>p. snd x = Some p \<and> fi_id it = pi_id (fst x)
           \<and> fi_quantity it = pi_quantityPrescribed (fst x)
           \<and> fi_available it = prod_quantity p
           \<and> fi_hasStock it = (pi_quantityPrescribed (fst x) \<le> prod_quantity p)"
  using assms by (auto simp: format_item_def split: option.splits)

lemma short_of_stock_flag:
  assumes "format_item x = Inr it" "short_of_stock x = Inr b"
  shows "b = (\<not> fi_hasStock it)"
  using assms by (auto simp: format_item_def short_of_stock_def split: option.splits)

lemma stock_issues_flag:
  assumes its: "map_result format_item items = Inr its"
    and shorts: "map_result short_of_stock items = Inr shorts"
  shows "list_ex (\<lambda>b. b) shorts \<longleftrightarrow> (\<exists>it\<in>set its. \<not> fi_hasStock it)"
proof -
  from list_all2_compose [OF map_result_all2 [OF its] map_result_all2 [OF shorts]]
  have "list_all2 (\<lambda>it b. b = (\<not> fi_hasStock it)) its shorts"
    by (rule list_all2_mono) (auto dest: short_of_stock_flag)
  then have "shorts = map (\<lambda>it. \<not> fi_hasStock it) its"
    by (rule list_all2_function)
  then show ?thesis by (auto simp: list_ex_iff)
qed

text \<open>
  C10: for every prescription of a returned list, the rows of its items are the items of
  the prescription in the database, each with the prescribed quantity and the quantity
  on hand of its product; the flag \<open>hasStock\<close> of an item is true exactly when the
  quantity on hand is at least the prescribed quantity, and the flag \<open>hasStockIssues\<close> of
  the prescription is true exactly when \<open>hasStock\<close> is false for one of its items.
\<close>

theorem pending_stock_flags:
  assumes "pending_GET s pr search page limit = Success resp"
    and "fp \<in> set (pr_prescriptions resp)"
  shows "list_all2 item_shown (include_items s (fp_id fp)) (fp_items fp)
         \<and> (\<forall>it\<in>set (fp_items fp). fi_hasStock it \<longleftrightarrow> fi_quantity it \<le> fi_available it)
         \<and> (fp_hasStockIssues fp \<longleftrightarrow> (\<exists>it\<in>set (fp_items fp). \<not> fi_hasStock it))"
proof -
  from pending_GET_success [OF assms(1)] obtain rows where
    fps: "map_result (format_prescription s) rows = Inr (pr_prescriptions resp)"
    by blast
  from list_all2_in_set [OF map_result_all2 [OF fps] assms(2)]
  obtain p where p: "format_prescription s p = Inr fp" by blast
  from format_prescription_fields [OF p] obtain shorts where
    id: "fp_id fp = rx_id p"
    and its: "map_result format_item (include_items s (rx_id p)) = Inr (fp_items fp)"
    and shorts: "map_result short_of_stock (include_items s (rx_id p)) = Inr shorts"
    and flag: "fp_hasStockIssues fp = list_ex (\<lambda>b. b) shorts"
    by blast
  note all2 = map_result_all2 [OF its]
  have shown: "list_all2 item_shown (include_items s (fp_id fp)) (fp_items fp)"
    unfolding id using all2
    by (rule list_all2_mono) (auto simp: item_shown_def dest: format_item_fields)
  have each: "fi_hasStock it \<longleftrightarrow> fi_quantity it \<le> fi_available it"
    if "it \<in> set (fp_items fp)" for it
  proof -
    from list_all2_in_set [OF all2 that] obtain x where "format_item x = Inr it" by blast
    from format_item_fields [OF this] show ?thesis by auto
  qed
  from shown each flag stock_issues_flag [OF its shorts] show ?thesis by simp
qed

theorem pending_stock_flags_witness:
  "\<exists>resp. pending_GET ex_queue_db None None 1 10 = Success resp
      \<and> fp_id (pr_prescriptions resp ! 2) = ''rx1''
      \<and> map fi_hasStock (fp_items (pr_prescriptions resp ! 2)) = [True, False]
      \<and> fp_hasStockIssues (pr_prescriptions resp ! 2)"
proof -
  obtain resp where ok: "pending_GET ex_queue_db None None 1 10 = Success resp"
    by (simp add: queue_defs ex_queue_db_def ex_defs)
  let ?fp = "pr_prescriptions resp ! 2"
  have len: "length (pr_prescriptions resp) = 3"
    using ok [symmetric] by (simp add: queue_defs ex_queue_db_def ex_defs)
  have vals: "fp_id ?fp = ''rx1'' \<and> map fi_hasStock (fp_items ?fp) = [True, False]"
    using ok [symmetric] by (simp add: queue_defs ex_queue_db_def ex_defs)
  then have "False \<in> set (map fi_hasStock (fp_items ?fp))" by simp
  then obtain it where it: "it \<in> set (fp_items ?fp)" "\<not> fi_hasStock it" by auto
  from len have "?fp \<in> set (pr_prescriptions resp)" by simp
  from pending_stock_flags [OF ok this] it have "fp_hasStockIssues ?fp" by blast
  with ok vals show ?thesis by (intro exI [of _ resp]) simp
qed

section \<open>Properties of the drug catalogue\<close>

lemma listed_eq:
  "listed s = sort_key (\<lambda>d. - drug_createdAt d) (filter (\<lambda>d. \<not> drug_isDeleted d) (drugs s))"
  by (simp add: listed_def drugs_GET_def)

lemma set_listed: "set (listed s) = {d \<in> set (drugs s). \<not> drug_isDeleted d}"
  by (simp add: listed_eq)

lemma length_filter_listed:
  "length (filter P (listed s)) = length (filter (\<lambda>d. \<not> drug_isDeleted d \<and> P d) (drugs s))"
proof -
  have "filter P (listed s)
        = sort_key (\<lambda>d. - drug_createdAt d) (filter P (filter (\<lambda>d. \<not> drug_isDeleted d) (drugs s)))"
    unfolding listed_eq by (rule filter_sort)
  then show ?thesis by (simp only: length_sort filter_filter)
qed

lemma new_drug_fields:
  assumes "new_drug now newId d0 = Some row"
  shows "drug_id row = newId \<and> drug_code row = in_code d0 \<and> \<not> drug_isDeleted row"
proof -
  from assms obtain v where "row = drug_row now newId d0 v"
    by (auto simp: new_drug_def split: option.splits)
  then show ?thesis by (simp add: drug_row_def)
qed

lemma new_drug_rejected:
  assumes "in_quantity d0 = None \<or> in_reorderLevel d0 = None \<or> in_price d0 = None
           \<or> in_cost d0 = None \<or> in_expiryDate d0 = None"
  shows "new_drug now newId d0 = None"
  using assms by (auto simp: new_drug_def coerced_def split: option.splits)

lemma new_drug_accepted:
  assumes "in_quantity d0 = Some q" "in_reorderLevel d0 = Some r" "in_price d0 = Some p"
    "in_cost d0 = Some c" "in_expiryDate d0 = Some e"
  shows "new_drug now newId d0 =
           Some (drug_row now newId d0
                   \<lparr> c_quantity = q, c_reorderLevel = r, c_price = p, c_cost = c,
                     c_expiryDate = e \<rparr>)"
  using assms by (simp add: new_drug_def coerced_def)

lemma drugs_POST_creates:
  assumes fresh: "\<not> list_ex (\<lambda>d. drug_id d = newId) (drugs s)"
    and free: "\<not> list_ex (\<lambda>d. drug_code d = in_code d0 \<and> \<not> drug_isDeleted d) (drugs s)"
    and row: "new_drug now newId d0 = Some row"
  shows "drugs_POST now newId d0 s = (Success row, s\<lparr> drugs := drugs s @ [row] \<rparr>)"
proof -
  from free have "find (\<lambda>x. drug_code x = in_code d0 \<and> \<not> drug_isDeleted x) (drugs s) = None"
    by (simp add: find_None_list_ex)
  moreover from fresh new_drug_fields [OF row]
  have "create_drug row (drugs s) = Some (drugs s @ [row])"
    by (simp add: create_drug_def)
  ultimately show ?thesis using row by (simp add: drugs_POST_def)
qed

lemma drugs_POST_rejected:
  assumes free: "\<not> list_ex (\<lambda>d. drug_code d = in_code d0 \<and> \<not> drug_isDeleted d) (drugs s)"
    and none: "new_drug now newId d0 = None"
  shows "drugs_POST now newId d0 s = (Failure 500 FailedToCreateDrug, s)"
proof -
  from free have "find (\<lambda>x. drug_code x = in_code d0 \<and> \<not> drug_isDeleted x) (drugs s) = None"
    by (simp add: find_None_list_ex)
  with none show ?thesis by (simp add: drugs_POST_def)
qed

lemma drugs_POST_conflict:
  assumes "list_ex (\<lambda>d. drug_code d = in_code d0 \<and> \<not> drug_isDeleted d) (drugs s)"
  shows "drugs_POST now newId d0 s = (Failure 409 DrugCodeExists, s)"
proof -
  from assms obtain x where
    "find (\<lambda>x. drug_code x = in_code d0 \<and> \<not> drug_isDeleted x) (drugs s) = Some x"
    by (cases "find (\<lambda>x. drug_code x = in_code d0 \<and> \<not> drug_isDeleted x) (drugs s)")
       (simp_all add: find_None_list_ex)
  then show ?thesis by (simp add: drugs_POST_def)
qed

lemma drugs_DELETE_deletes:
  assumes "list_ex (\<lambda>d. drug_id d = i) (drugs s)"
  shows "\<exists>d. find (\<lambda>x. drug_id x = i) (drugs s) = Some d
           \<and> drugs_DELETE now i s
               = (Success (soft_delete now d),
                  s\<lparr> drugs := map (\<lambda>x. if drug_id x = i then soft_delete now x else x) (drugs s) \<rparr>)"
proof -
  from assms obtain d where "find (\<lambda>x. drug_id x = i) (drugs s) = Some d"
    by (cases "find (\<lambda>x. drug_id x = i) (drugs s)") (simp_all add: find_None_list_ex)
  with assms show ?thesis by (simp add: drugs_DELETE_def update_rows_def)
qed

lemma list_all_rewritten:
  assumes "\<And>r. P r \<Longrightarrow> Q (f r)" "\<And>r. \<not> P r \<Longrightarrow> Q r"
  shows "list_all Q (map (\<lambda>r. if P r then f r else r) rows)"
  by (induction rows) (simp_all add: assms)

lemma list_all_preserved:
  assumes "list_all Q rows" "\<And>r. Q r \<Longrightarrow> Q (f r)"
  shows "list_all Q (map (\<lambda>r. if P r then f r else r) rows)"
  using assms(1) by (induction rows) (simp_all add: assms(2))

lemma drugs_DELETE_rows:
  assumes "list_ex (\<lambda>d. drug_id d = i) (drugs s)"
  shows "drugs (snd (drugs_DELETE now i s))
         = map (\<lambda>x. if drug_id x = i then soft_delete now x else x) (drugs s)"
proof -
  from assms obtain d where "find (\<lambda>x. drug_id x = i) (drugs s) = Some d"
    by (cases "find (\<lambda>x. drug_id x = i) (drugs s)") (simp_all add: find_None_list_ex)
  with assms show ?thesis by (simp add: drugs_DELETE_def update_rows_def)
qed

lemma kept_deleted_after_DELETE:
  assumes "list_ex (\<lambda>d. drug_id d = i) (drugs s)"
  shows "kept_deleted i (snd (drugs_DELETE now i s))"
proof -
  let ?rows = "map (\<lambda>x. if drug_id x = i then soft_delete now x else x) (drugs s)"
  have ex: "list_ex (\<lambda>d. drug_id d = i) ?rows = list_ex (\<lambda>d. drug_id d = i) (drugs s)"
    by (rule list_ex_update) (simp add: soft_delete_def)
  have all: "list_all (\<lambda>d. drug_id d \<noteq> i \<or> drug_isDeleted d) ?rows"
    by (rule list_all_rewritten) (simp_all add: soft_delete_def)
  show ?thesis
    unfolding kept_deleted_def drugs_DELETE_rows [OF assms] using assms ex all by simp
qed

lemma kept_deleted_not_listed:
  assumes "kept_deleted i s"
  shows "\<not> list_ex (\<lambda>d. drug_id d = i) (listed s)"
  using assms by (auto simp: kept_deleted_def list_ex_iff list_all_iff set_listed)

lemma drugs_POST_state:
  "snd (drugs_POST now newId d0 s) = s
   \<or> (\<exists>row. new_drug now newId d0 = Some row
         \<and> \<not> list_ex (\<lambda>d. drug_id d = newId) (drugs s)
         \<and> snd (drugs_POST now newId d0 s) = s\<lparr> drugs := drugs s @ [row] \<rparr>)"
proof (cases "find (\<lambda>x. drug_code x = in_code d0 \<and> \<not> drug_isDeleted x) (drugs s)")
  case (Some x)
  then show ?thesis by (simp add: drugs_POST_def)
next
  case None
  note free = None
  show ?thesis
  proof (cases "new_drug now newId d0")
    case None
    with free show ?thesis by (simp add: drugs_POST_def)
  next
    case (Some row)
    from new_drug_fields [OF Some] have id: "drug_id row = newId" by simp
    show ?thesis
    proof (cases "list_ex (\<lambda>d. drug_id d = newId) (drugs s)")
      case True
      with free Some id show ?thesis by (simp add: drugs_POST_def create_drug_def)
    next
      case False
      with free Some id show ?thesis by (simp add: drugs_POST_def create_drug_def)
    qed
  qed
qed

lemma kept_deleted_POST:
  assumes "kept_deleted i s"
  shows "kept_deleted i (snd (drugs_POST now newId d0 s))"
  using drugs_POST_state [of now newId d0 s]
proof
  assume "snd (drugs_POST now newId d0 s) = s"
  with assms show ?thesis by simp
next
  assume "\<exists>row. new_drug now newId d0 = Some row
         \<and> \<not> list_ex (\<lambda>d. drug_id d = newId) (drugs s)
         \<and> snd (drugs_POST now newId d0 s) = s\<lparr> drugs := drugs s @ [row] \<rparr>"
  then obtain row where row: "new_drug now newId d0 = Some row"
    and fresh: "\<not> list_ex (\<lambda>d. drug_id d = newId) (drugs s)"
    and st: "snd (drugs_POST now newId d0 s) = s\<lparr> drugs := drugs s @ [row] \<rparr>"
    by blast
  from assms fresh have "newId \<noteq> i" by (auto simp: kept_deleted_def)
  with assms new_drug_fields [OF row] have "kept_deleted i (s\<lparr> drugs := drugs s @ [row] \<rparr>)"
    by (simp add: kept_deleted_def)
  with st show ?thesis by simp
qed

lemma kept_deleted_update:
  assumes "kept_deleted i s" "\<And>d. drug_id (f d) = drug_id d"
    "\<And>d. drug_isDeleted d \<Longrightarrow> drug_isDeleted (f d)"
  shows "kept_deleted i (s\<lparr> drugs := map (\<lambda>x. if P x then f x else x) (drugs s) \<rparr>)"
proof -
  let ?rows = "map (\<lambda>x. if P x then f x else x) (drugs s)"
  have "list_ex (\<lambda>d. drug_id d = i) ?rows = list_ex (\<lambda>d. drug_id d = i) (drugs s)"
    by (rule list_ex_update) (simp add: assms(2))
  moreover have "list_all (\<lambda>d. drug_id d \<noteq> i \<or> drug_isDeleted d) ?rows"
  proof (rule list_all_preserved)
    show "list_all (\<lambda>d. drug_id d \<noteq> i \<or> drug_isDeleted d) (drugs s)"
      using assms(1) by (simp add: kept_deleted_def)
    show "drug_id (f r) \<noteq> i \<or> drug_isDeleted (f r)" if "drug_id r \<noteq> i \<or> drug_isDeleted r" for r
      using that assms(2,3) by auto
  qed
  ultimately show ?thesis using assms(1) by (simp add: kept_deleted_def)
qed

lemma drugs_PUT_state:
  "snd (drugs_PUT now u s) = s
   \<or> (\<exists>v. snd (drugs_PUT now u s)
          = s\<lparr> drugs := map (\<lambda>x. if drug_id x = up_drugId u then apply_update now u v x else x)
                            (drugs s) \<rparr>)"
proof (cases "find (\<lambda>x. drug_id x = up_drugId u \<and> \<not> drug_isDeleted x) (drugs s)")
  case None
  then show ?thesis by (simp add: drugs_PUT_def)
next
  case (Some e)
  show ?thesis
  proof (cases "up_code u \<noteq> drug_code e
             \<and> find (\<lambda>x. drug_code x = up_code u \<and> \<not> drug_isDeleted x
                          \<and> drug_id x \<noteq> up_drugId u) (drugs s) \<noteq> None")
    case True
    with Some show ?thesis by (simp add: drugs_PUT_def)
  next
    case False
    show ?thesis
    proof (cases "coerced (up_quantity u) (up_reorderLevel u) (up_price u) (up_cost u)
                    (up_expiryDate u)")
      case None
      with Some False show ?thesis by (simp add: drugs_PUT_def)
    next
      case v: (Some v)
      show ?thesis
      proof (cases "list_ex (\<lambda>x. drug_id x = up_drugId u) (drugs s)")
        case True
        from False have "(if up_code u \<noteq> drug_code e
             \<and> find (\<lambda>x. drug_code x = up_code u \<and> \<not> drug_isDeleted x
                          \<and> drug_id x \<noteq> up_drugId u) (drugs s) \<noteq> None then A else B) = B"
          for A B :: "drug response \<times> db"
          by (rule if_not_P)
        with Some v True have "snd (drugs_PUT now u s)
          = s\<lparr> drugs := map (\<lambda>x. if drug_id x = up_drugId u then apply_update now u v x else x)
                            (drugs s) \<rparr>"
          by (simp add: drugs_PUT_def update_rows_def)
        then show ?thesis by blast
      next
        case nex: False
        with Some False v show ?thesis by (simp add: drugs_PUT_def update_rows_def)
      qed
    qed
  qed
qed

lemma kept_deleted_PUT:
  assumes "kept_deleted i s"
  shows "kept_deleted i (snd (drugs_PUT now u s))"
  using drugs_PUT_state [of now u s]
proof
  assume "snd (drugs_PUT now u s) = s"
  with assms show ?thesis by simp
next
  assume "\<exists>v. snd (drugs_PUT now u s)
          = s\<lparr> drugs := map (\<lambda>x. if drug_id x = up_drugId u then apply_update now u v x else x)
                            (drugs s) \<rparr>"
  then obtain v where st: "snd (drugs_PUT now u s)
          = s\<lparr> drugs := map (\<lambda>x. if drug_id x = up_drugId u then apply_update now u v x else x)
                            (drugs s) \<rparr>" ..
  show ?thesis
    unfolding st by (rule kept_deleted_update [OF assms]) (simp_all add: apply_update_def)
qed

lemma drugs_DELETE_state:
  "snd (drugs_DELETE now j s) = s
   \<or> snd (drugs_DELETE now j s)
       = s\<lparr> drugs := map (\<lambda>x. if drug_id x = j then soft_delete now x else x) (drugs s) \<rparr>"
proof (cases "find (\<lambda>x. drug_id x = j) (drugs s)")
  case None
  then show ?thesis by (simp add: drugs_DELETE_def)
next
  case (Some e)
  show ?thesis
  proof (cases "list_ex (\<lambda>x. drug_id x = j) (drugs s)")
    case True
    with Some show ?thesis by (simp add: drugs_DELETE_def update_rows_def)
  next
    case False
    with Some show ?thesis by (simp add: drugs_DELETE_def update_rows_def)
  qed
qed

lemma kept_deleted_DELETE:
  assumes "kept_deleted i s"
  shows "kept_deleted i (snd (drugs_DELETE now j s))"
proof -
  have "kept_deleted i (s\<lparr> drugs := map (\<lambda>x. if drug_id x = j then soft_delete now x else x) (drugs s) \<rparr>)"
    by (rule kept_deleted_update [OF assms]) (simp_all add: soft_delete_def)
  then show ?thesis
    using assms drugs_DELETE_state [of now j s] by (elim disjE) simp_all
qed

lemma kept_deleted_run:
  "kept_deleted i s \<Longrightarrow> kept_deleted i (run_drug_requests rs s)"
proof (induction rs arbitrary: s)
  case Nil
  then show ?case by simp
next
  case (Cons r rs)
  from Cons.prems have "kept_deleted i (apply_drug_request r s)"
    by (cases r) (simp_all add: kept_deleted_POST kept_deleted_PUT kept_deleted_DELETE)
  from Cons.IH [OF this] show ?case by simp
qed

lemma find_snoc:
  "find P (xs @ [x]) = (case find P xs of None \<Rightarrow> (if P x then Some x else None) | Some y \<Rightarrow> Some y)"
  by (induction xs) auto

text \<open>
  C8, as stated, fails: a create request with a code that no live drug has is answered
  with 500 when one of its coerced fields is \<open>NaN\<close> or an invalid date, and nothing is
  written.  The request below carries no price, no cost and no expiry date; the table
  is empty, so its code is free, and the list has no entry with that code afterwards.
\<close>

theorem drugs_POST_unparsed_counterexample:
  "\<not> list_ex (\<lambda>d. drug_code d = in_code ex_input_unpriced \<and> \<not> drug_isDeleted d) (drugs empty_db)
   \<and> drugs_POST 1000 ''d1'' ex_input_unpriced empty_db = (Failure 500 FailedToCreateDrug, empty_db)
   \<and> length (filter (\<lambda>d. drug_code d = ''X1'')
        (listed (apply_drug_request (Create 1000 ''d1'' ex_input_unpriced) empty_db))) = 0"
  by (simp add: drugs_POST_def new_drug_def coerced_def drugs_GET_def listed_def
        ex_input_unpriced_def empty_db_def)

text \<open>
  C8, amended: the round trip over the drug endpoints, for a create request whose
  quantity, reorder level, price, cost and expiry date are coerced to numbers and a
  valid date.  When the mapper generates an identifier that no drug has and no live drug
  has the code of the request, the creation succeeds and the list of drugs has exactly
  one entry with that code; a second creation with the same code is then rejected with a
  conflict and changes nothing, whatever its other fields; deleting the drug succeeds,
  and after it, whatever requests to the drug endpoints follow, the drug is not in the
  list and its record is still in the table, marked as deleted.  A create request with
  a free code of which one of the five fields is not coerced is answered with 500 and
  changes nothing.
\<close>

theorem drugs_round_trip:
  assumes fresh: "\<not> list_ex (\<lambda>d. drug_id d = newId) (drugs s)"
    and free: "\<not> list_ex (\<lambda>d. drug_code d = in_code d0 \<and> \<not> drug_isDeleted d) (drugs s)"
    and same: "in_code d1 = in_code d0"
    and parsed: "in_quantity d0 = Some q" "in_reorderLevel d0 = Some r" "in_price d0 = Some p"
      "in_cost d0 = Some c" "in_expiryDate d0 = Some e"
    and row: "row = drug_row now newId d0
                \<lparr> c_quantity = q, c_reorderLevel = r, c_price = p, c_cost = c,
                  c_expiryDate = e \<rparr>"
    and unparsed: "in_code d2 = in_code d0"
      "in_quantity d2 = None \<or> in_reorderLevel d2 = None \<or> in_price d2 = None
       \<or> in_cost d2 = None \<or> in_expiryDate d2 = None"
  shows "fst (drugs_POST now newId d0 s) = Success row
         \<and> drug_code row = in_code d0
         \<and> length (filter (\<lambda>d. drug_code d = in_code d0)
              (listed (apply_drug_request (Create now newId d0) s))) = 1
         \<and> drugs_POST now1 newId1 d1 (apply_drug_request (Create now newId d0) s)
             = (Failure 409 DrugCodeExists, apply_drug_request (Create now newId d0) s)
         \<and> fst (drugs_DELETE now2 newId (apply_drug_request (Create now newId d0) s))
             = Success (soft_delete now2 row)
         \<and> \<not> list_ex (\<lambda>d. drug_id d = newId)
              (listed (run_drug_requests (Create now newId d0 # Delete now2 newId # rs) s))
         \<and> list_ex (\<lambda>d. drug_id d = newId \<and> drug_isDeleted d)
              (drugs (run_drug_requests (Create now newId d0 # Delete now2 newId # rs) s))
         \<and> drugs_POST now newId d2 s = (Failure 500 FailedToCreateDrug, s)"
proof -
  let ?s1 = "s\<lparr> drugs := drugs s @ [row] \<rparr>"
  have new: "new_drug now newId d0 = Some row"
    unfolding row by (rule new_drug_accepted [OF parsed])
  note fields = new_drug_fields [OF new]
  have post: "drugs_POST now newId d0 s = (Success row, ?s1)"
    by (rule drugs_POST_creates [OF fresh free new])
  then have s1: "apply_drug_request (Create now newId d0) s = ?s1" by simp
  have code: "drug_code row = in_code d0" using fields by simp
  have "filter (\<lambda>d. \<not> drug_isDeleted d \<and> drug_code d = in_code d0) (drugs s) = []"
    using free by (auto simp: filter_empty_conv list_ex_iff)
  then have one: "length (filter (\<lambda>d. drug_code d = in_code d0) (listed ?s1)) = 1"
    using fields by (simp add: length_filter_listed)
  have "list_ex (\<lambda>d. drug_code d = in_code d1 \<and> \<not> drug_isDeleted d) (drugs ?s1)"
    using same fields by simp
  then have conflict: "drugs_POST now1 newId1 d1 ?s1 = (Failure 409 DrugCodeExists, ?s1)"
    by (rule drugs_POST_conflict)
  have ex: "list_ex (\<lambda>d. drug_id d = newId) (drugs ?s1)" using fields by simp
  from fresh have "find (\<lambda>x. drug_id x = newId) (drugs s) = None"
    by (simp add: find_None_list_ex)
  then have found: "find (\<lambda>x. drug_id x = newId) (drugs ?s1) = Some row"
    using fields by (simp add: find_snoc)
  have del: "fst (drugs_DELETE now2 newId ?s1) = Success (soft_delete now2 row)"
    using ex found by (simp add: drugs_DELETE_def update_rows_def)
  have "kept_deleted newId (apply_drug_request (Delete now2 newId) ?s1)"
    using kept_deleted_after_DELETE [OF ex, of now2] by simp
  then have kept: "kept_deleted newId (run_drug_requests rs (apply_drug_request (Delete now2 newId) ?s1))"
    by (rule kept_deleted_run)
  have run: "run_drug_requests (Create now newId d0 # Delete now2 newId # rs) s
             = run_drug_requests rs (apply_drug_request (Delete now2 newId) ?s1)"
    using s1 by simp
  from kept have gone: "\<not> list_ex (\<lambda>d. drug_id d = newId)
      (listed (run_drug_requests (Create now newId d0 # Delete now2 newId # rs) s))"
    unfolding run by (rule kept_deleted_not_listed)
  from kept have still: "list_ex (\<lambda>d. drug_id d = newId \<and> drug_isDeleted d)
      (drugs (run_drug_requests (Create now newId d0 # Delete now2 newId # rs) s))"
    unfolding run by (auto simp: kept_deleted_def list_ex_iff list_all_iff)
  have free2: "\<not> list_ex (\<lambda>d. drug_code d = in_code d2 \<and> \<not> drug_isDeleted d) (drugs s)"
    using free unparsed(1) by simp
  have rejected: "drugs_POST now newId d2 s = (Failure 500 FailedToCreateDrug, s)"
    by (rule drugs_POST_rejected [OF free2 new_drug_rejected [OF unparsed(2)]])
  have first: "fst (drugs_POST now newId d0 s) = Success row" using post by simp
  show ?thesis
    unfolding s1 by (intro conjI first code one conflict del gone still rejected)
qed

theorem drugs_round_trip_witness:
  "map drug_code (listed (apply_drug_request (Create 1000 ''d1'' ex_input) empty_db)) = [''X1'']
   \<and> length (filter (\<lambda>d. drug_code d = ''X1'')
        (listed (apply_drug_request (Create 1000 ''d1'' ex_input) empty_db))) = 1
   \<and> fst (drugs_POST 2000 ''d2'' ex_input (apply_drug_request (Create 1000 ''d1'' ex_input) empty_db))
       = Failure 409 DrugCodeExists
   \<and> listed (run_drug_requests [Create 1000 ''d1'' ex_input, Delete 3000 ''d1''] empty_db) = []
   \<and> map drug_isDeleted
        (drugs (run_drug_requests [Create 1000 ''d1'' ex_input, Delete 3000 ''d1''] empty_db))
       = [True]
   \<and> drugs_POST 1000 ''d1'' ex_input_unpriced empty_db
       = (Failure 500 FailedToCreateDrug, empty_db)"
proof -
  have fresh: "\<not> list_ex (\<lambda>d. drug_id d = ''d1'') (drugs empty_db)"
    by (simp add: empty_db_def)
  have free: "\<not> list_ex (\<lambda>d. drug_code d = in_code ex_input \<and> \<not> drug_isDeleted d) (drugs empty_db)"
    by (simp add: empty_db_def)
  have parsed: "in_quantity ex_input = Some 100" "in_reorderLevel ex_input = Some 10"
    "in_price ex_input = Some 5" "in_cost ex_input = Some 3"
    "in_expiryDate ex_input = Some 1800000000000"
    by (simp_all add: ex_input_def)
  have unparsed: "in_code ex_input_unpriced = in_code ex_input"
    "in_quantity ex_input_unpriced = None \<or> in_reorderLevel ex_input_unpriced = None
     \<or> in_price ex_input_unpriced = None \<or> in_cost ex_input_unpriced = None
     \<or> in_expiryDate ex_input_unpriced = None"
    by (simp_all add: ex_input_def ex_input_unpriced_def)
  note rt = drugs_round_trip [OF fresh free refl parsed refl unparsed,
      of 1000 2000 "''d2''" 3000 "[]"]
  from rt have one: "length (filter (\<lambda>d. drug_code d = ''X1'')
        (listed (apply_drug_request (Create 1000 ''d1'' ex_input) empty_db))) = 1"
    by (simp add: ex_input_def)
  from rt have two: "fst (drugs_POST 2000 ''d2'' ex_input
        (apply_drug_request (Create 1000 ''d1'' ex_input) empty_db)) = Failure 409 DrugCodeExists"
    by simp
  from rt have three: "drugs_POST 1000 ''d1'' ex_input_unpriced empty_db
       = (Failure 500 FailedToCreateDrug, empty_db)"
    by simp
  have a: "map drug_code (listed (apply_drug_request (Create 1000 ''d1'' ex_input) empty_db)) = [''X1'']"
    by (simp add: drugs_POST_def drugs_GET_def listed_def new_drug_def coerced_def drug_row_def
          create_drug_def ex_input_def empty_db_def)
  have c: "listed (run_drug_requests [Create 1000 ''d1'' ex_input, Delete 3000 ''d1''] empty_db) = []
   \<and> map drug_isDeleted
        (drugs (run_drug_requests [Create 1000 ''d1'' ex_input, Delete 3000 ''d1''] empty_db))
       = [True]"
    by (simp add: drugs_POST_def drugs_DELETE_def drugs_GET_def listed_def new_drug_def
          coerced_def drug_row_def create_drug_def update_rows_def soft_delete_def
          ex_input_def empty_db_def)
  from one two three a c show ?thesis by simp
qed

end
